theory Spec2Isabelle
  imports Complex_Main "HOL-Library.AList"
begin

section \<open>Strings\<close>

text \<open>
  The string helpers the server uses: \<^verbatim>\<open>os.path.basename\<close>, \<^verbatim>\<open>str.replace('/', '_')\<close>
  and \<^verbatim>\<open>str\<close> of an integer (decimal, a minus sign for negative numbers), which the
  f-strings of the source apply to ports and exit codes.
\<close>

definition basename :: "string \<Rightarrow> string" where
  "basename p = rev (takeWhile (\<lambda>c. c \<noteq> CHR ''/'') (rev p))"

definition replace_slash :: "string \<Rightarrow> string" where
  "replace_slash s = map (\<lambda>c. if c = CHR ''/'' then CHR ''_'' else c) s"

definition digit_char :: "nat \<Rightarrow> char" where
  "digit_char d = ''0123456789'' ! d"

fun str_nat :: "nat \<Rightarrow> string" where
  "str_nat n = (if n < 10 then [digit_char n] else str_nat (n div 10) @ [digit_char (n mod 10)])"

declare str_nat.simps [simp del]

definition str_int :: "int \<Rightarrow> string" where
  "str_int i = (if i < 0 then CHR ''-'' # str_nat (nat (- i)) else str_nat (nat i))"

text \<open>Reading a decimal numeral back; used only to show that \<open>str_int\<close> is injective.\<close>

definition digit_val :: "char \<Rightarrow> nat" where
  "digit_val c = of_char c - 48"

definition nat_of_str :: "string \<Rightarrow> nat" where
  "nat_of_str s = foldl (\<lambda>a c. 10 * a + digit_val c) 0 s"

definition int_of_str :: "string \<Rightarrow> int" where
  "int_of_str s =
     (case s of
        [] \<Rightarrow> 0
      | c # r \<Rightarrow> if c = CHR ''-'' then - int (nat_of_str r) else int (nat_of_str s))"

section \<open>Data model\<close>

text \<open>
  \<^verbatim>\<open>ModelInfo\<close> (model_manager.py, lines 22-32). The field \<^verbatim>\<open>id\<close> is \<open>id_field\<close> here,
  \<open>id\<close> being the identity function of HOL. The status is a Python string and stays one.
  The quantization dictionary always has the three keys \<^verbatim>\<open>enabled\<close>, \<^verbatim>\<open>method\<close>,
  \<^verbatim>\<open>bits\<close>. Time stamps are opaque reals supplied by the environment.
\<close>

record quantization =
  q_enabled :: bool
  q_method :: string
  q_bits :: int

record ModelInfo =
  id_field :: string
  name :: string
  port :: int
  url :: string
  gpu_id :: int
  status :: string
  quantization :: quantization
  pid :: "int option"
  start_time :: "real option"

text \<open>
  The server configuration dictionary, as far as the manager reads it
  (\<^verbatim>\<open>starting_port\<close>, line 51, and \<^verbatim>\<open>infer_backend\<close>, line 276); an absent key is \<open>None\<close>.
\<close>

record server_config =
  starting_port :: "int option"
  infer_backend :: "string option"

text \<open>
  A call of \<^verbatim>\<open>_start_model_server\<close> handed to FastAPI's \<^verbatim>\<open>BackgroundTasks\<close> (lines 174-181):
  the record it will work on, by reference, and the launch parameters.
\<close>

record launch_task =
  task_ref :: nat
  task_deployed :: string
  task_max_model_len :: int
  task_memory_util :: real

text \<open>A request the proxy sends to a backend (utils.py, lines 71-76 and 88).\<close>

datatype json =
    JNull
  | JBool bool
  | JInt int
  | JStr string
  | JList "json list"
  | JDict "(string \<times> json) list"

record outbound_call =
  out_url :: string
  out_body :: json
  out_headers :: "(string \<times> string) list"
  out_timeout :: int
  out_stream :: bool

text \<open>
  The state of the process. \<open>config\<close>, \<open>models\<close> and \<open>next_port\<close> are the fields of
  \<^verbatim>\<open>ModelManager\<close> (lines 48-51). \<open>models\<close> is the dictionary in insertion order, from an
  identity to a reference into \<open>heap\<close>: the \<^verbatim>\<open>ModelInfo\<close> objects are shared between the
  dictionary and the launch calls that mutate them, so they live in a store, a reference
  being an index into it. \<open>tasks\<close> are the background launches added and not yet run.
  The rest is what the process does to its environment: the \<^verbatim>\<open>os.kill\<close> calls
  \<open>(pid, signal)\<close> in order, the requests sent to backends by the proxy, the messages
  given to \<^verbatim>\<open>logger.error\<close>, and the files under \<^verbatim>\<open>config/model_configs\<close>.
  \<open>drawn\<close> is a history of the allocator, not a field of the class: every value a call
  of \<^verbatim>\<open>_get_next_port\<close> has returned, in order.
\<close>

record world =
  config :: server_config
  models :: "(string \<times> nat) list"
  next_port :: int
  heap :: "ModelInfo list"
  tasks :: "launch_task list"
  signals :: "(int \<times> int) list"
  outbound :: "outbound_call list"
  error_log :: "string list"
  config_files :: "string set"
  drawn :: "int list"

text \<open>Python exceptions, with the message the source gives them.\<close>

datatype exn =
    ValueError string
  | KeyError string
  | RuntimeError string
  | TypeError string
  | AttributeError string
  | OtherError string
  | HTTPException int string

section \<open>The model manager\<close>

text \<open>\<^verbatim>\<open>ModelManager.__init__\<close> (lines 48-51), in a process that has done nothing yet.\<close>

definition init :: "server_config \<Rightarrow> world" where
  "init cfg =
     \<lparr> config = cfg, models = [],
       next_port = (case starting_port cfg of None \<Rightarrow> 8000 | Some p \<Rightarrow> p),
       heap = [], tasks = [], signals = [], outbound = [], error_log = [],
       config_files = {}, drawn = [] \<rparr>"

text \<open>
  \<^verbatim>\<open>_get_next_port\<close> (lines 53-57); the value it returns is noted in the history.
\<close>

definition get_next_port :: "world \<Rightarrow> int \<times> world" where
  "get_next_port w =
     (next_port w, w\<lparr>next_port := next_port w + 1, drawn := drawn w @ [next_port w]\<rparr>)"

text \<open>
  \<^verbatim>\<open>get_model\<close> (lines 72-83): the identity first, then the first record in dictionary
  order whose name is the key. The result is the reference of the record.
\<close>

definition get_model :: "world \<Rightarrow> string \<Rightarrow> nat option" where
  "get_model w key =
     (case map_of (models w) key of
        Some a \<Rightarrow> Some a
      | None \<Rightarrow> map_option snd (find (\<lambda>(k, a). name (heap w ! a) = key) (models w)))"

text \<open>Writing a field of a record in the store, and \<^verbatim>\<open>logger.error\<close>.\<close>

definition upd_obj :: "nat \<Rightarrow> (ModelInfo \<Rightarrow> ModelInfo) \<Rightarrow> world \<Rightarrow> world" where
  "upd_obj a f w = w\<lparr>heap := (heap w)[a := f (heap w ! a)]\<rparr>"

definition set_status :: "nat \<Rightarrow> string \<Rightarrow> world \<Rightarrow> world" where
  "set_status a s w = upd_obj a (\<lambda>m. m\<lparr>status := s\<rparr>) w"

definition log_error :: "string \<Rightarrow> world \<Rightarrow> world" where
  "log_error msg w = w\<lparr>error_log := error_log w @ [msg]\<rparr>"

subsection \<open>Quantization\<close>

text \<open>
  \<^verbatim>\<open>_quantize_model\<close> (lines 195-252) runs an external tool. What the environment answers:
  whether the output directory exists already (line 210), and the return code and the
  standard error of the tool (lines 240-249). The files it writes are not part of the state.
\<close>

record quant_env =
  already_quantized :: bool
  quant_returncode :: int
  quant_stderr :: string

definition quantize_model ::
  "quant_env \<Rightarrow> string \<Rightarrow> string \<Rightarrow> int \<Rightarrow> world \<Rightarrow> (exn + string) \<times> world" where
  "quantize_model qenv model_id quant_method quant_bits w =
     (let output_dir = ''models/quantized/'' @ basename model_id @ ''-'' @ quant_method
                         @ ''-'' @ str_int quant_bits @ ''b''
      in if already_quantized qenv then (Inr output_dir, w)
         else if quant_returncode qenv \<noteq> 0 then
           (Inl (RuntimeError (''Failed to quantize model: '' @ quant_stderr qenv)),
            log_error (''Quantization failed: '' @ quant_stderr qenv) w)
         else (Inr output_dir, w))"

subsection \<open>Launch and readiness polling\<close>

text \<open>
  What the environment answers to \<^verbatim>\<open>_start_model_server\<close> (lines 254-346):
  \<open>spawn\<close> is the outcome of opening the log file and of \<^verbatim>\<open>subprocess.Popen\<close> (lines 294-302),
  the text of the exception or the process id; \<open>now\<close> is \<^verbatim>\<open>time.time()\<close> (line 306);
  \<open>poll k\<close> is \<^verbatim>\<open>process.poll()\<close> in cycle \<open>k\<close> (counted from 0), the exit code once the
  process has exited; \<open>log_text\<close> is what the log file holds when it is read (line 317);
  \<open>probe k\<close> is the status code the GET of cycle \<open>k\<close> returns (lines 327-330), \<open>None\<close>
  when it raises (connection refused, timeout).
\<close>

record launch_env =
  spawn :: "string + int"
  now :: real
  poll :: "nat \<Rightarrow> int option"
  log_text :: string
  probe :: "nat \<Rightarrow> int option"

datatype wait_result = Ready | Exited int | TimedOut

text \<open>
  The loop of lines 309-337: \<open>wait_for_server env k n\<close> runs the cycles \<open>k, \<dots>, k + n - 1\<close>.
  The exit of the process is looked at first (line 313); the probe is sent only when the
  process is still running, and only the status 200 ends the loop (line 331).
\<close>

fun wait_for_server :: "launch_env \<Rightarrow> nat \<Rightarrow> nat \<Rightarrow> wait_result" where
  "wait_for_server env k 0 = TimedOut"
| "wait_for_server env k (Suc n) =
     (case poll env k of
        Some returncode \<Rightarrow> Exited returncode
      | None \<Rightarrow>
          (case probe env k of
             Some status_code \<Rightarrow>
               if status_code = 200 then Ready else wait_for_server env (Suc k) n
           | None \<Rightarrow> wait_for_server env (Suc k) n))"

text \<open>
  \<^verbatim>\<open>_start_model_server\<close> on the record at reference \<open>a\<close>. The command line (lines 279-288)
  is not built; nothing below depends on it. The process exit is logged with the exit
  code and the whole log file (lines 318-319), the status is set to failed and a
  \<^verbatim>\<open>RuntimeError\<close> is raised (lines 320-321), which the handler of lines 343-346 logs,
  sets the status again and raises again. When the 30 cycles end the status becomes
  starting and the call returns (lines 339-341).
\<close>

definition start_model_server :: "launch_env \<Rightarrow> nat \<Rightarrow> world \<Rightarrow> (exn + unit) \<times> world" where
  "start_model_server env a w =
     (case spawn env of
        Inl msg \<Rightarrow>
          (Inl (OtherError msg),
           set_status a ''failed'' (log_error (''Failed to start model server: '' @ msg) w))
      | Inr p \<Rightarrow>
          (let w1 = upd_obj a (\<lambda>m. m\<lparr>pid := Some p, start_time := Some (now env)\<rparr>) w
           in case wait_for_server env 0 30 of
                Ready \<Rightarrow> (Inr (), set_status a ''ready'' w1)
              | Exited returncode \<Rightarrow>
                  (let msg = ''Model server process exited with code '' @ str_int returncode;
                       w2 = log_error (''Log: '' @ log_text env) (log_error msg w1);
                       w3 = set_status a ''failed'' w2;
                       w4 = log_error (''Failed to start model server: '' @ msg) w3
                   in (Inl (RuntimeError msg), set_status a ''failed'' w4))
              | TimedOut \<Rightarrow> (Inr (), set_status a ''starting'' w1)))"

subsection \<open>Registration\<close>

text \<open>
  A saved deployment descriptor, as \<^verbatim>\<open>add_model_from_config\<close> reads it (lines 85-119): every
  key may be absent. Present values have the type \<^verbatim>\<open>_save_model_config\<close> writes. The
  key \<^verbatim>\<open>parameters\<close> only reaches the command line of the backend and is left out.
\<close>

record quant_config =
  cq_enabled :: "bool option"
  cq_method :: "string option"
  cq_bits :: "int option"

record model_config =
  cfg_model_id :: "string option"
  cfg_port :: "int option"
  cfg_gpu_id :: "int option"
  cfg_quantization :: "quant_config option"

definition new_object :: "ModelInfo \<Rightarrow> world \<Rightarrow> nat \<times> world" where
  "new_object m w = (length (heap w), w\<lparr>heap := heap w @ [m]\<rparr>)"

text \<open>
  Lines 87-110. Python evaluates the default of \<^verbatim>\<open>dict.get\<close> before the call, so
  \<^verbatim>\<open>_get_next_port\<close> runs once for \<^verbatim>\<open>port\<close> (line 98) and once for \<^verbatim>\<open>url\<close> (line 99),
  whether or not the descriptor has a port. There is no check that the identity is new:
  line 110 stores the record under it.
\<close>

definition register_from_config :: "model_config \<Rightarrow> world \<Rightarrow> (exn + nat) \<times> world" where
  "register_from_config mc w =
     (case cfg_model_id mc of
        None \<Rightarrow> (Inl (ValueError ''Missing model_id in configuration''), w)
      | Some model_id \<Rightarrow>
          if model_id = [] then (Inl (ValueError ''Missing model_id in configuration''), w)
          else
            (let (p1, w1) = get_next_port w;
                 (p2, w2) = get_next_port w1;
                 qc = (case cfg_quantization mc of
                         None \<Rightarrow> \<lparr>cq_enabled = None, cq_method = None, cq_bits = None\<rparr>
                       | Some q \<Rightarrow> q);
                 model_info =
                   \<lparr> id_field = model_id,
                     name = basename model_id,
                     port = (case cfg_port mc of None \<Rightarrow> p1 | Some p \<Rightarrow> p),
                     url = ''http://localhost:''
                             @ str_int (case cfg_port mc of None \<Rightarrow> p2 | Some p \<Rightarrow> p),
                     gpu_id = (case cfg_gpu_id mc of None \<Rightarrow> 0 | Some g \<Rightarrow> g),
                     status = ''loading'',
                     quantization =
                       \<lparr> q_enabled = (case cq_enabled qc of None \<Rightarrow> False | Some b \<Rightarrow> b),
                         q_method = (case cq_method qc of None \<Rightarrow> ''none'' | Some m \<Rightarrow> m),
                         q_bits = (case cq_bits qc of None \<Rightarrow> 4 | Some b \<Rightarrow> b) \<rparr>,
                     pid = None,
                     start_time = None \<rparr>;
                 (a, w3) = new_object model_info w2
             in (Inr a, w3\<lparr>models := AList.update model_id a (models w3)\<rparr>)))"

text \<open>\<^verbatim>\<open>add_model_from_config\<close>: the registration, then the launch, awaited (lines 113-117).\<close>

definition add_model_from_config ::
  "launch_env \<Rightarrow> model_config \<Rightarrow> world \<Rightarrow> (exn + nat) \<times> world" where
  "add_model_from_config env mc w =
     (case register_from_config mc w of
        (Inl e, w1) \<Rightarrow> (Inl e, w1)
      | (Inr a, w1) \<Rightarrow>
          (case start_model_server env a w1 of
             (Inl e, w2) \<Rightarrow> (Inl e, w2)
           | (Inr u, w2) \<Rightarrow> (Inr a, w2)))"

text \<open>The arguments of \<^verbatim>\<open>add_model\<close> (lines 121-131; \<^verbatim>\<open>ModelAddRequest\<close> in app.py).\<close>

record add_request =
  req_model_id :: string
  req_port :: "int option"
  req_gpu_id :: int
  req_quantize :: bool
  req_quant_method :: string
  req_quant_bits :: int
  req_max_model_len :: int
  req_memory_util :: real

text \<open>\<^verbatim>\<open>_save_model_config\<close> (lines 348-380): the file of the record exists afterwards.\<close>

definition config_file_of :: "ModelInfo \<Rightarrow> string" where
  "config_file_of m = ''config/model_configs/'' @ replace_slash (name m) @ ''.json''"

definition save_model_config :: "nat \<Rightarrow> world \<Rightarrow> world" where
  "save_model_config a w = w\<lparr>config_files := insert (config_file_of (heap w ! a)) (config_files w)\<rparr>"

text \<open>
  Lines 134-171 of \<^verbatim>\<open>add_model\<close>: the duplicate check comes first, before a port is drawn;
  then the port, the quantization, which may raise, and the record, stored as loading.
  The result is the reference of the record and the model the backend will serve.
\<close>

definition register_model ::
  "quant_env \<Rightarrow> add_request \<Rightarrow> world \<Rightarrow> (exn + nat \<times> string) \<times> world" where
  "register_model qenv rq w =
     (let model_id = req_model_id rq in
      case map_of (models w) model_id of
        Some existing \<Rightarrow> (Inl (ValueError (''Model '' @ model_id @ '' already exists'')), w)
      | None \<Rightarrow>
          (let (port_no, w1) = (case req_port rq of
                                  None \<Rightarrow> get_next_port w
                                | Some p \<Rightarrow> (p, w));
               (q, w2) = (if req_quantize rq
                          then quantize_model qenv model_id (req_quant_method rq)
                                 (req_quant_bits rq) w1
                          else (Inr model_id, w1))
           in case q of
                Inl e \<Rightarrow> (Inl e, w2)
              | Inr deployed_model_id \<Rightarrow>
                  (let model_info =
                         \<lparr> id_field = model_id,
                           name = basename model_id,
                           port = port_no,
                           url = ''http://localhost:'' @ str_int port_no,
                           gpu_id = req_gpu_id rq,
                           status = ''loading'',
                           quantization =
                             \<lparr> q_enabled = req_quantize rq,
                               q_method = (if req_quantize rq then req_quant_method rq
                                           else ''none''),
                               q_bits = (if req_quantize rq then req_quant_bits rq else 0) \<rparr>,
                           pid = None,
                           start_time = None \<rparr>;
                       (a, w3) = new_object model_info w2
                   in (Inr (a, deployed_model_id),
                       w3\<lparr>models := AList.update model_id a (models w3)\<rparr>))))"

text \<open>
  \<^verbatim>\<open>add_model\<close>: with \<^verbatim>\<open>background_tasks\<close> the launch is queued (lines 174-181) and the
  call returns with the record still loading; without, the launch is awaited (lines 183-188)
  and its exception leaves the call before the configuration is saved.
\<close>

definition add_model ::
  "quant_env \<Rightarrow> launch_env \<Rightarrow> bool \<Rightarrow> add_request \<Rightarrow> world \<Rightarrow> (exn + nat) \<times> world" where
  "add_model qenv env background_tasks rq w =
     (case register_model qenv rq w of
        (Inl e, w1) \<Rightarrow> (Inl e, w1)
      | (Inr (a, deployed_model_id), w1) \<Rightarrow>
          if background_tasks then
            (Inr a,
             save_model_config a
               (w1\<lparr>tasks := tasks w1 @
                  [\<lparr> task_ref = a, task_deployed = deployed_model_id,
                     task_max_model_len = req_max_model_len rq,
                     task_memory_util = req_memory_util rq \<rparr>]\<rparr>))
          else
            (case start_model_server env a w1 of
               (Inl e, w2) \<Rightarrow> (Inl e, w2)
             | (Inr u, w2) \<Rightarrow> (Inr a, save_model_config a w2)))"

text \<open>A queued launch runs: the \<open>i\<close>-th task leaves the queue and its call is made.\<close>

definition run_task :: "launch_env \<Rightarrow> nat \<Rightarrow> world \<Rightarrow> (exn + unit) \<times> world" where
  "run_task env i w =
     (if i < length (tasks w)
      then start_model_server env (task_ref (tasks w ! i))
             (w\<lparr>tasks := take i (tasks w) @ drop (Suc i) (tasks w)\<rparr>)
      else (Inr (), w))"

subsection \<open>Removal\<close>

text \<open>
  What the environment answers to the \<^verbatim>\<open>os.kill\<close> calls of \<^verbatim>\<open>remove_model\<close> (lines 382-429):
  a call returns, raises \<^verbatim>\<open>ProcessLookupError\<close>, or raises something else. \<open>still_there k\<close>
  says whether the check \<^verbatim>\<open>os.kill(pid, 0)\<close> of wait \<open>k\<close> returns, that is, the process
  still exists; otherwise it raises \<^verbatim>\<open>OSError\<close> and the loop is left (lines 404-409).
\<close>

datatype kill_result = Delivered | NoSuchProcess | KillError string

record kill_env =
  on_sigterm :: kill_result
  still_there :: "nat \<Rightarrow> bool"
  on_sigkill :: kill_result

text \<open>
  The loop of lines 402-412 from wait \<open>k\<close> with \<open>n\<close> waits left: how many checks were
  made, and whether the loop ran to its end (the \<^verbatim>\<open>else\<close> of the \<^verbatim>\<open>for\<close>).
\<close>

fun wait_for_exit :: "kill_env \<Rightarrow> nat \<Rightarrow> nat \<Rightarrow> nat \<times> bool" where
  "wait_for_exit env k 0 = (k, True)"
| "wait_for_exit env k (Suc n) =
     (if still_there env k then wait_for_exit env (Suc k) n else (Suc k, False))"

definition send_signal :: "int \<Rightarrow> int \<Rightarrow> world \<Rightarrow> world" where
  "send_signal p sig w = w\<lparr>signals := signals w @ [(p, sig)]\<rparr>"

text \<open>
  Lines 397-418: SIGTERM, up to 10 checks one second apart, SIGKILL when the process is
  still there after them. \<^verbatim>\<open>ProcessLookupError\<close> is logged as a warning, any other
  exception as an error; neither leaves \<^verbatim>\<open>remove_model\<close>.
\<close>

definition stop_process :: "kill_env \<Rightarrow> int \<Rightarrow> world \<Rightarrow> world" where
  "stop_process env p w =
     (let w1 = send_signal p 15 w in
      case on_sigterm env of
        NoSuchProcess \<Rightarrow> w1
      | KillError msg \<Rightarrow> log_error (''Error stopping model server: '' @ msg) w1
      | Delivered \<Rightarrow>
          (let (checks, ran_out) = wait_for_exit env 0 10;
               w2 = w1\<lparr>signals := signals w1 @ replicate checks (p, 0)\<rparr>
           in if ran_out then
                (let w3 = send_signal p 9 w2 in
                 case on_sigkill env of
                   KillError msg \<Rightarrow> log_error (''Error stopping model server: '' @ msg) w3
                 | _ \<Rightarrow> w3)
              else w2))"

text \<open>
  \<^verbatim>\<open>remove_model\<close>: the key is looked up with \<open>get_model\<close>, so by identity and then by name.
  A record with a process id (\<^verbatim>\<open>if model_info.pid\<close>: neither \<open>None\<close> nor 0) has its
  process stopped, whatever its status. The result is the \<^verbatim>\<open>id\<close>, \<^verbatim>\<open>name\<close> and \<^verbatim>\<open>port\<close>
  of the record. \<^verbatim>\<open>dict.pop\<close> (line 427) raises \<^verbatim>\<open>KeyError\<close> on a missing key.
\<close>

definition remove_model ::
  "kill_env \<Rightarrow> string \<Rightarrow> world \<Rightarrow> (exn + string \<times> string \<times> int) \<times> world" where
  "remove_model env model_id w =
     (case get_model w model_id of
        None \<Rightarrow> (Inl (KeyError (''Model '' @ model_id @ '' not found'')), w)
      | Some a \<Rightarrow>
          (let model_info = heap w ! a;
               result = (id_field model_info, name model_info, port model_info);
               w1 = (case pid model_info of
                       None \<Rightarrow> w
                     | Some p \<Rightarrow> if p = 0 then w else stop_process env p w);
               w2 = w1\<lparr>config_files := config_files w1 - {config_file_of model_info}\<rparr>
           in case map_of (models w2) (id_field model_info) of
                None \<Rightarrow> (Inl (KeyError (id_field model_info)), w2)
              | Some b \<Rightarrow>
                  (Inr result, w2\<lparr>models := AList.delete (id_field model_info) (models w2)\<rparr>)))"

section \<open>The proxy\<close>

text \<open>
  An inbound request: its headers as the ASGI server hands them over, in order, the
  names in lower case, and what \<^verbatim>\<open>request.json()\<close> gives, the text of the exception when the
  body is not JSON. A JSON object is a \<open>JDict\<close> with distinct keys.
\<close>

record request =
  req_headers :: "(string \<times> string) list"
  req_json :: "string + json"

text \<open>
  What a backend answers to a POST: the status code, what
  \<^verbatim>\<open>headers.get("content-type")\<close> gives, the body as text, and what \<^verbatim>\<open>response.json()\<close>
  gives, the text of the exception when the body does not decode.
\<close>

record http_reply =
  rep_status :: int
  rep_content_type :: "string option"
  rep_text :: string
  rep_json :: "string + json"

text \<open>
  The outcome of the buffered POST (utils.py, lines 70-77): an answer, a
  \<^verbatim>\<open>httpx.RequestError\<close> (no connection, a connection reset, a timeout), or another exception.
\<close>

datatype backend = Responds http_reply | Unreachable string | Breaks string

datatype proxy_exn = HTTPStatusError http_reply | RequestError string | Unexpected string

datatype response = JSONResponse int json | StreamingResponse outbound_call

text \<open>
  \<^verbatim>\<open>str.lower\<close> on the ASCII letters, for the header lookup of Starlette, which compares
  the lower-cased name asked for with the names of the request.
\<close>

definition lower_char :: "char \<Rightarrow> char" where
  "lower_char c =
     (case map_of (zip ''ABCDEFGHIJKLMNOPQRSTUVWXYZ'' ''abcdefghijklmnopqrstuvwxyz'') c of
        Some l \<Rightarrow> l
      | None \<Rightarrow> c)"

definition header_get :: "(string \<times> string) list \<Rightarrow> string \<Rightarrow> string option" where
  "header_get hs key = map_of hs (map lower_char key)"

text \<open>
  Lines 29-32 of utils.py: the loop over the two names, in that order, filling the
  dictionary \<^verbatim>\<open>headers\<close>.
\<close>

definition forwarded_headers :: "(string \<times> string) list \<Rightarrow> (string \<times> string) list" where
  "forwarded_headers hs =
     foldl (\<lambda>headers header_name.
              case header_get hs header_name of
                Some v \<Rightarrow> AList.update header_name v headers
              | None \<Rightarrow> headers)
       [] [''Content-Type'', ''Authorization'']"

text \<open>Python's truth value of a JSON value, and the type names its messages use.\<close>

fun truthy :: "json \<Rightarrow> bool" where
  "truthy JNull = False"
| "truthy (JBool b) = b"
| "truthy (JInt n) = (n \<noteq> 0)"
| "truthy (JStr s) = (s \<noteq> [])"
| "truthy (JList xs) = (xs \<noteq> [])"
| "truthy (JDict kvs) = (kvs \<noteq> [])"

fun py_type_name :: "json \<Rightarrow> string" where
  "py_type_name JNull = ''NoneType''"
| "py_type_name (JBool b) = ''bool''"
| "py_type_name (JInt n) = ''int''"
| "py_type_name (JStr s) = ''str''"
| "py_type_name (JList xs) = ''list''"
| "py_type_name (JDict kvs) = ''dict''"

definition quoted :: "string \<Rightarrow> string" where
  "quoted s = [CHR 0x27] @ s @ [CHR 0x27]"

text \<open>
  \<^verbatim>\<open>str\<close> of the values a model key can be when it is looked up, for the messages; lists
  and dictionaries never get that far.
\<close>

fun py_str :: "json \<Rightarrow> string" where
  "py_str (JStr s) = s"
| "py_str (JInt n) = str_int n"
| "py_str (JBool b) = (if b then ''True'' else ''False'')"
| "py_str JNull = ''None''"
| "py_str (JList xs) = []"
| "py_str (JDict kvs) = []"

text \<open>\<^verbatim>\<open>str(e)\<close> of an exception: its message; of a \<^verbatim>\<open>KeyError\<close>, the key in quotes.\<close>

fun exn_str :: "exn \<Rightarrow> string" where
  "exn_str (ValueError m) = m"
| "exn_str (KeyError k) = quoted k"
| "exn_str (RuntimeError m) = m"
| "exn_str (TypeError m) = m"
| "exn_str (AttributeError m) = m"
| "exn_str (OtherError m) = m"
| "exn_str (HTTPException c m) = m"

text \<open>
  \<^verbatim>\<open>raise_for_status\<close> of httpx raises \<^verbatim>\<open>HTTPStatusError\<close> unless the status is a success,
  200 to 299.
\<close>

definition is_success :: "int \<Rightarrow> bool" where
  "is_success code = (200 \<le> code \<and> code \<le> 299)"

definition send_out :: "outbound_call \<Rightarrow> world \<Rightarrow> world" where
  "send_out c w = w\<lparr>outbound := outbound w @ [c]\<rparr>"

text \<open>\<^verbatim>\<open>proxy_standard_request\<close> (utils.py, lines 68-82).\<close>

definition proxy_standard_request ::
  "backend \<Rightarrow> string \<Rightarrow> json \<Rightarrow> (string \<times> string) list \<Rightarrow> world
     \<Rightarrow> (proxy_exn + response) \<times> world" where
  "proxy_standard_request be full_url body headers w =
     (let w1 = send_out \<lparr> out_url = full_url, out_body = body, out_headers = headers,
                          out_timeout = 90, out_stream = False \<rparr> w
      in case be of
           Unreachable msg \<Rightarrow> (Inl (RequestError msg), w1)
         | Breaks msg \<Rightarrow> (Inl (Unexpected msg), w1)
         | Responds r \<Rightarrow>
             if \<not> is_success (rep_status r) then (Inl (HTTPStatusError r), w1)
             else (case rep_json r of
                     Inl msg \<Rightarrow> (Inl (Unexpected msg), w1)
                   | Inr j \<Rightarrow> (Inr (JSONResponse (rep_status r) j), w1)))"

text \<open>
  \<^verbatim>\<open>proxy_streaming_request\<close> (lines 84-96) only builds the response around the generator:
  no request is sent and nothing is raised until the framework iterates the body.
\<close>

definition proxy_streaming_request ::
  "string \<Rightarrow> json \<Rightarrow> (string \<times> string) list \<Rightarrow> world \<Rightarrow> (proxy_exn + response) \<times> world" where
  "proxy_streaming_request full_url body headers w =
     (Inr (StreamingResponse \<lparr> out_url = full_url, out_body = body, out_headers = headers,
                               out_timeout = 600, out_stream = True \<rparr>), w)"

text \<open>
  The generator of lines 86-91, run by the framework after the handler has returned: the
  request is sent; the chunks come out in order; the exception, if any, ends the stream.
  The backend either cannot be reached, or answers with a status and then its chunks,
  perhaps cut by a transport error.
\<close>

datatype stream_backend =
    StreamResponds http_reply "string list" "string option"
  | StreamUnreachable string

definition stream_generator ::
  "stream_backend \<Rightarrow> outbound_call \<Rightarrow> world \<Rightarrow> (string list \<times> proxy_exn option) \<times> world" where
  "stream_generator sb c w =
     (let w1 = send_out c w in
      case sb of
        StreamUnreachable msg \<Rightarrow> (([], Some (RequestError msg)), w1)
      | StreamResponds r chunks broken \<Rightarrow>
          if \<not> is_success (rep_status r) then (([], Some (HTTPStatusError r)), w1)
          else ((chunks, map_option RequestError broken), w1))"

definition error_body :: "string \<Rightarrow> json" where
  "error_body msg = JDict [(''error'', JStr msg)]"

text \<open>
  \<^verbatim>\<open>proxy_request\<close> (lines 13-66). An exception of line 26 or of \<^verbatim>\<open>body.get\<close> leaves the
  function, and so does one raised by \<^verbatim>\<open>e.response.json()\<close> inside the first handler
  (line 53).
\<close>

definition proxy_request ::
  "backend \<Rightarrow> request \<Rightarrow> string \<Rightarrow> string \<Rightarrow> world \<Rightarrow> (exn + response) \<times> world" where
  "proxy_request be rq target_url endpoint w =
     (case req_json rq of
        Inl msg \<Rightarrow> (Inl (OtherError msg), w)
      | Inr body \<Rightarrow>
          (case body of
             JDict kvs \<Rightarrow>
               (let headers = forwarded_headers (req_headers rq);
                    is_streaming = (case map_of kvs ''stream'' of
                                      None \<Rightarrow> False
                                    | Some v \<Rightarrow> truthy v);
                    full_url = target_url @ ''/v1/'' @ endpoint
                in case (if is_streaming then proxy_streaming_request full_url body headers w
                         else proxy_standard_request be full_url body headers w) of
                     (Inr resp, w1) \<Rightarrow> (Inr resp, w1)
                   | (Inl (HTTPStatusError r), w1) \<Rightarrow>
                       (let w2 = log_error (''HTTP error from model server: ''
                                    @ str_int (rep_status r) @ '' - '' @ rep_text r) w1
                        in if rep_content_type r = Some ''application/json'' then
                             (case rep_json r of
                                Inr j \<Rightarrow> (Inr (JSONResponse (rep_status r) j), w2)
                              | Inl msg \<Rightarrow> (Inl (OtherError msg), w2))
                           else (Inr (JSONResponse (rep_status r) (error_body (rep_text r))), w2))
                   | (Inl (RequestError msg), w1) \<Rightarrow>
                       (Inr (JSONResponse 503 (error_body (''Model server unavailable: '' @ msg))),
                        log_error (''Request error to model server: '' @ msg) w1)
                   | (Inl (Unexpected msg), w1) \<Rightarrow>
                       (Inr (JSONResponse 500 (error_body (''Internal server error: '' @ msg))),
                        log_error (''Error proxying request: '' @ msg) w1))
           | other \<Rightarrow>
               (Inl (AttributeError (quoted (py_type_name other)
                       @ '' object has no attribute '' @ quoted ''get'')), w)))"

section \<open>The HTTP handlers\<close>

text \<open>
  \<^verbatim>\<open>self.models\<close> and \<open>get_model\<close> on the value of the key \<^verbatim>\<open>model\<close>: a string is looked up;
  a number or a boolean is in no dictionary of strings and equals no name; a list or a
  dictionary cannot be hashed, a \<^verbatim>\<open>TypeError\<close>.
\<close>

fun lookup_key :: "world \<Rightarrow> json \<Rightarrow> exn + nat option" where
  "lookup_key w (JStr s) = Inr (get_model w s)"
| "lookup_key w (JList xs) = Inl (TypeError (''unhashable type: '' @ quoted ''list''))"
| "lookup_key w (JDict kvs) = Inl (TypeError (''unhashable type: '' @ quoted ''dict''))"
| "lookup_key w other = Inr None"

text \<open>
  \<^verbatim>\<open>chat_completions\<close> and \<^verbatim>\<open>completions\<close> (app.py, lines 177-237) are the same function up to
  the endpoint and the word in the log message. An \<^verbatim>\<open>HTTPException\<close> passes; any other
  exception is logged and becomes the status 500.
\<close>

definition internal_error :: "string \<Rightarrow> string \<Rightarrow> world \<Rightarrow> (exn + response) \<times> world" where
  "internal_error label msg w =
     (Inl (HTTPException 500 (''Internal server error: '' @ msg)),
      log_error (''Error in '' @ label @ '': '' @ msg) w)"

definition route ::
  "string \<Rightarrow> string \<Rightarrow> backend \<Rightarrow> request \<Rightarrow> world \<Rightarrow> (exn + response) \<times> world" where
  "route label endpoint be rq w =
     (case req_json rq of
        Inl msg \<Rightarrow> internal_error label msg w
      | Inr body \<Rightarrow>
          (case body of
             JDict kvs \<Rightarrow>
               (let model_id = (case map_of kvs ''model'' of None \<Rightarrow> JNull | Some v \<Rightarrow> v) in
                if \<not> truthy model_id then (Inl (HTTPException 400 ''Model ID is required''), w)
                else
                  (case lookup_key w model_id of
                     Inl e \<Rightarrow> internal_error label (exn_str e) w
                   | Inr None \<Rightarrow>
                       (Inl (HTTPException 404 (''Model '' @ py_str model_id @ '' not found'')), w)
                   | Inr (Some a) \<Rightarrow>
                       (let model_info = heap w ! a in
                        if status model_info \<noteq> ''ready'' then
                          (Inl (HTTPException 503
                                  (''Model '' @ py_str model_id @ '' is not ready (status: ''
                                     @ status model_info @ '')'')), w)
                        else
                          (case proxy_request be rq (url model_info) endpoint w of
                             (Inr resp, w1) \<Rightarrow> (Inr resp, w1)
                           | (Inl e, w1) \<Rightarrow> internal_error label (exn_str e) w1))))
           | other \<Rightarrow>
               internal_error label
                 (quoted (py_type_name other) @ '' object has no attribute '' @ quoted ''get'')
                 w))"

definition chat_completions :: "backend \<Rightarrow> request \<Rightarrow> world \<Rightarrow> (exn + response) \<times> world" where
  "chat_completions = route ''chat completions'' ''chat/completions''"

definition completions :: "backend \<Rightarrow> request \<Rightarrow> world \<Rightarrow> (exn + response) \<times> world" where
  "completions = route ''completions'' ''completions''"

text \<open>
  \<^verbatim>\<open>remove_model\<close> of app.py (lines 161-175): a \<^verbatim>\<open>KeyError\<close> of the manager is the status
  404, any other exception the status 500.
\<close>

definition api_remove_model ::
  "kill_env \<Rightarrow> string \<Rightarrow> world \<Rightarrow> (exn + string \<times> string \<times> int) \<times> world" where
  "api_remove_model env model_id w =
     (case remove_model env model_id w of
        (Inr result, w1) \<Rightarrow> (Inr result, w1)
      | (Inl (KeyError k), w1) \<Rightarrow>
          (Inl (HTTPException 404 (''Model '' @ model_id @ '' not found'')), w1)
      | (Inl e, w1) \<Rightarrow>
          (Inl (HTTPException 500 (''Failed to remove model: '' @ exn_str e)),
           log_error (''Error removing model: '' @ exn_str e) w1))"

text \<open>
  \<^verbatim>\<open>add_model\<close> of app.py (lines 137-159): it always passes \<^verbatim>\<open>background_tasks\<close>, so the
  launch environment given here is never consulted; every exception is the status 500.
\<close>

definition api_add_model ::
  "quant_env \<Rightarrow> launch_env \<Rightarrow> add_request \<Rightarrow> world \<Rightarrow> (exn + nat) \<times> world" where
  "api_add_model qenv env rq w =
     (case add_model qenv env True rq w of
        (Inr a, w1) \<Rightarrow> (Inr a, w1)
      | (Inl e, w1) \<Rightarrow>
          (Inl (HTTPException 500 (''Failed to add model: '' @ exn_str e)),
           log_error (''Error adding model: '' @ exn_str e) w1))"

section \<open>Runs of the server\<close>

text \<open>
  One operation on the server, with what the environment answers during it, and what it
  gives back. \<open>run\<close> performs a sequence of operations, one after the other.
\<close>

datatype op =
    GetNextPort
  | AddModel quant_env launch_env bool add_request
  | AddModelFromConfig launch_env model_config
  | RunTask launch_env nat
  | RemoveModel kill_env string
  | ApiAddModel quant_env launch_env add_request
  | ApiRemoveModel kill_env string
  | ChatCompletions backend request
  | Completions backend request
  | RunStream stream_backend outbound_call

datatype outcome =
    PortOut int
  | AddOut "exn + nat"
  | LaunchOut "exn + unit"
  | RemoveOut "exn + string \<times> string \<times> int"
  | RouteOut "exn + response"
  | StreamOut "string list \<times> proxy_exn option"

fun step :: "op \<Rightarrow> world \<Rightarrow> outcome \<times> world" where
  "step GetNextPort w = (case get_next_port w of (p, w1) \<Rightarrow> (PortOut p, w1))"
| "step (AddModel qenv env bg rq) w =
     (case add_model qenv env bg rq w of (r, w1) \<Rightarrow> (AddOut r, w1))"
| "step (AddModelFromConfig env mc) w =
     (case add_model_from_config env mc w of (r, w1) \<Rightarrow> (AddOut r, w1))"
| "step (RunTask env i) w = (case run_task env i w of (r, w1) \<Rightarrow> (LaunchOut r, w1))"
| "step (RemoveModel env key) w =
     (case remove_model env key w of (r, w1) \<Rightarrow> (RemoveOut r, w1))"
| "step (ApiAddModel qenv env rq) w =
     (case api_add_model qenv env rq w of (r, w1) \<Rightarrow> (AddOut r, w1))"
| "step (ApiRemoveModel env key) w =
     (case api_remove_model env key w of (r, w1) \<Rightarrow> (RemoveOut r, w1))"
| "step (ChatCompletions be rq) w =
     (case chat_completions be rq w of (r, w1) \<Rightarrow> (RouteOut r, w1))"
| "step (Completions be rq) w = (case completions be rq w of (r, w1) \<Rightarrow> (RouteOut r, w1))"
| "step (RunStream sb c) w = (case stream_generator sb c w of (r, w1) \<Rightarrow> (StreamOut r, w1))"

fun run :: "op list \<Rightarrow> world \<Rightarrow> outcome list \<times> world" where
  "run [] w = ([], w)"
| "run (x # xs) w =
     (case step x w of (r, w1) \<Rightarrow> (case run xs w1 of (rs, w2) \<Rightarrow> (r # rs, w2)))"

section \<open>Notions used in the statements\<close>

text \<open>The ports the calls of \<open>get_next_port\<close> made in a run gave back, in order.\<close>

definition reserved :: "outcome list \<Rightarrow> int list" where
  "reserved rs = concat (map (\<lambda>r. case r of PortOut p \<Rightarrow> [p] | other \<Rightarrow> []) rs)"

text \<open>
  Sample environments and requests for the examples: a server configuration without a
  starting port, a quantization tool that is never run, a backend that answers the first
  probe, and a process that is gone at the first check after SIGTERM.
\<close>

definition cfg0 :: server_config where
  "cfg0 = \<lparr>starting_port = None, infer_backend = None\<rparr>"

definition no_quant :: quant_env where
  "no_quant = \<lparr>already_quantized = False, quant_returncode = 0, quant_stderr = []\<rparr>"

definition env_ready :: launch_env where
  "env_ready = \<lparr>spawn = Inr 4242, now = 1, poll = (\<lambda>k. None), log_text = [],
                 probe = (\<lambda>k. Some 200)\<rparr>"

definition req_m :: add_request where
  "req_m = \<lparr>req_model_id = ''org/m'', req_port = None, req_gpu_id = 0, req_quantize = False,
            req_quant_method = ''awq'', req_quant_bits = 4, req_max_model_len = 8192,
            req_memory_util = 9 / 10\<rparr>"

definition kill_ok :: kill_env where
  "kill_ok = \<lparr>on_sigterm = Delivered, still_there = (\<lambda>k. False), on_sigkill = Delivered\<rparr>"

text \<open>A saved descriptor without a port.\<close>

definition mc0 :: model_config where
  "mc0 = \<lparr>cfg_model_id = Some ''org/m'', cfg_port = None, cfg_gpu_id = None,
           cfg_quantization = None\<rparr>"

text \<open>
  The requests a handler call sends to a backend: those it adds to \<open>outbound\<close>, and the
  one inside a streaming response, which the framework sends when it iterates the body.
\<close>

definition forwarded_calls :: "(exn + response) \<times> world \<Rightarrow> world \<Rightarrow> outbound_call list" where
  "forwarded_calls res w =
     drop (length (outbound w)) (outbound (snd res))
       @ (case fst res of Inr (StreamingResponse c) \<Rightarrow> [c] | other \<Rightarrow> [])"

text \<open>
  A manager with one model, registered with the launch awaited and ready; a chat request
  for it with three headers; a backend that answers 200.
\<close>

definition w_ready :: world where
  "w_ready = snd (add_model no_quant env_ready False req_m (init cfg0))"

definition rq_chat :: request where
  "rq_chat = \<lparr>req_headers = [(''content-type'', ''application/json''),
                              (''authorization'', ''Bearer t''), (''x-api-key'', ''k'')],
              req_json = Inr (JDict [(''model'', JStr ''org/m'')])\<rparr>"

definition be_ok :: backend where
  "be_ok = Responds \<lparr>rep_status = 200, rep_content_type = Some ''application/json'',
                     rep_text = ''{}'', rep_json = Inr (JDict [])\<rparr>"

text \<open>The model key of a request: the string under \<^verbatim>\<open>model\<close> in its JSON object.\<close>

definition model_key :: "request \<Rightarrow> string option" where
  "model_key rq =
     (case req_json rq of
        Inr (JDict kvs) \<Rightarrow> (case map_of kvs ''model'' of Some (JStr s) \<Rightarrow> Some s | other \<Rightarrow> None)
      | other \<Rightarrow> None)"

text \<open>A manager with one model whose launch is queued: the record is still loading.\<close>

definition w_loading :: world where
  "w_loading = snd (add_model no_quant env_ready True req_m (init cfg0))"

text \<open>
  A chat request whose model key is the empty string, and a manager with one model whose
  identity ends in a slash, so that its name is the empty string; its launch is queued.
\<close>

definition rq_empty :: request where
  "rq_empty = \<lparr>req_headers = [(''content-type'', ''application/json'')],
               req_json = Inr (JDict [(''model'', JStr [])])\<rparr>"

definition req_slash :: add_request where
  "req_slash = \<lparr>req_model_id = ''org/'', req_port = None, req_gpu_id = 0,
                req_quantize = False, req_quant_method = ''awq'', req_quant_bits = 4,
                req_max_model_len = 8192, req_memory_util = 9 / 10\<rparr>"

definition w_slash :: world where
  "w_slash = snd (add_model no_quant env_ready True req_slash (init cfg0))"

text \<open>A manager that has loaded the descriptor \<open>mc0\<close> once, its backend ready.\<close>

definition w_cfg :: world where
  "w_cfg = snd (add_model_from_config env_ready mc0 (init cfg0))"





text \<open>
  Two more launch environments: a backend that answers every probe with the status 204,
  and a process that has exited with code 1 when cycle 2 looks at it.
\<close>

definition env_204 :: launch_env where
  "env_204 = \<lparr>spawn = Inr 4242, now = 1, poll = (\<lambda>k. None), log_text = [],
               probe = (\<lambda>k. Some 204)\<rparr>"

definition env_exit :: launch_env where
  "env_exit = \<lparr>spawn = Inr 4242, now = 1, poll = (\<lambda>k. if k = 2 then Some 1 else None),
                log_text = ''CUDA out of memory'', probe = (\<lambda>k. None)\<rparr>"

text \<open>
  The four statuses the code writes, and the three a launch ends in.
\<close>

definition known_status :: "string \<Rightarrow> bool" where
  "known_status s = (s = ''loading'' \<or> s = ''starting'' \<or> s = ''ready'' \<or> s = ''failed'')"

definition launched_status :: "string \<Rightarrow> bool" where
  "launched_status s = (s = ''starting'' \<or> s = ''ready'' \<or> s = ''failed'')"

text \<open>
  The invariant of the state. Every queued launch refers to a record of the store that
  is still loading, and no two refer to the same record; every entry of the registry
  refers to a record of the store whose \<^verbatim>\<open>id\<close> is the key; every record of the store
  has one of the four statuses.
\<close>

definition tasks_ok :: "ModelInfo list \<Rightarrow> launch_task list \<Rightarrow> bool" where
  "tasks_ok h ts =
     (list_all (\<lambda>t. task_ref t < length h \<and> status (h ! task_ref t) = ''loading'') ts
      \<and> distinct (map task_ref ts))"

definition models_ok :: "ModelInfo list \<Rightarrow> (string \<times> nat) list \<Rightarrow> bool" where
  "models_ok h ms = list_all (\<lambda>(k, a). a < length h \<and> id_field (h ! a) = k) ms"

definition heap_ok :: "ModelInfo list \<Rightarrow> bool" where
  "heap_ok h = list_all (\<lambda>m. known_status (status m)) h"

definition consistent :: "world \<Rightarrow> bool" where
  "consistent w =
     (tasks_ok (heap w) (tasks w) \<and> models_ok (heap w) (models w) \<and> heap_ok (heap w))"

text \<open>
  How the status of one record object may change in one operation: not at all, or from
  loading to what a launch ends in. \<open>status_of\<close> is the status the registry shows for an
  identity, \<open>None\<close> when the identity is not registered. \<open>id_edge\<close> is how that may change
  in one operation: the record may go (any status); an identity that was not registered
  may show one of the four statuses; a registered one changes as its record does.
\<close>

definition obj_edge :: "string \<Rightarrow> string \<Rightarrow> bool" where
  "obj_edge s t = (s = t \<or> (s = ''loading'' \<and> launched_status t))"

definition status_of :: "world \<Rightarrow> string \<Rightarrow> string option" where
  "status_of w k = map_option (\<lambda>a. status (heap w ! a)) (map_of (models w) k)"

definition id_edge :: "string option \<Rightarrow> string option \<Rightarrow> bool" where
  "id_edge s t =
     (case t of
        None \<Rightarrow> True
      | Some v \<Rightarrow> (case s of None \<Rightarrow> known_status v | Some u \<Rightarrow> obj_edge u v))"

text \<open>
  What one operation does to the store, the registry and the queue: nothing; it deletes
  a key of the registry; it creates a record and registers it, with its launch queued or
  already run; or it runs a queued launch.
\<close>

definition quiet :: "world \<Rightarrow> world \<Rightarrow> bool" where
  "quiet w w' = (heap w' = heap w \<and> models w' = models w \<and> tasks w' = tasks w)"

definition removes :: "world \<Rightarrow> world \<Rightarrow> bool" where
  "removes w w' =
     (heap w' = heap w \<and> tasks w' = tasks w \<and> (\<exists>k. models w' = AList.delete k (models w)))"

definition creates :: "world \<Rightarrow> world \<Rightarrow> bool" where
  "creates w w' =
     (\<exists>m. heap w' = heap w @ [m] \<and> known_status (status m)
        \<and> models w' = AList.update (id_field m) (length (heap w)) (models w)
        \<and> (tasks w' = tasks w
            \<or> (status m = ''loading''
                \<and> (\<exists>t. task_ref t = length (heap w) \<and> tasks w' = tasks w @ [t]))))"

definition launches :: "world \<Rightarrow> world \<Rightarrow> bool" where
  "launches w w' =
     (\<exists>i m. i < length (tasks w)
        \<and> heap w' = (heap w)[task_ref (tasks w ! i) := m]
        \<and> launched_status (status m)
        \<and> id_field m = id_field (heap w ! task_ref (tasks w ! i))
        \<and> models w' = models w
        \<and> tasks w' = take i (tasks w) @ drop (Suc i) (tasks w))"

definition effect :: "world \<Rightarrow> world \<Rightarrow> bool" where
  "effect w w' = (quiet w w' \<or> removes w w' \<or> creates w w' \<or> launches w w')"

text \<open>
  An operation that registers, through \<open>add_model_from_config\<close>, an identity that is in the
  registry already.
\<close>

definition reregisters :: "op \<Rightarrow> world \<Rightarrow> bool" where
  "reregisters x w =
     (case x of
        AddModelFromConfig env mc \<Rightarrow>
          (case cfg_model_id mc of None \<Rightarrow> False | Some k \<Rightarrow> map_of (models w) k \<noteq> None)
      | other \<Rightarrow> False)"

text \<open>
  The edges of claim C1, in the claim's words, \<open>None\<close> standing for the record that is
  stopped, that is, removed: loading to ready, starting or failed; starting to ready or
  failed; ready to stopped; failed to stopped.
\<close>

definition spec_edge :: "string option \<Rightarrow> string option \<Rightarrow> bool" where
  "spec_edge s t =
     ((s = Some ''loading'' \<and> (t = Some ''ready'' \<or> t = Some ''starting'' \<or> t = Some ''failed''))
      \<or> (s = Some ''starting'' \<and> (t = Some ''ready'' \<or> t = Some ''failed''))
      \<or> (s = Some ''ready'' \<and> t = None)
      \<or> (s = Some ''failed'' \<and> t = None))"

text \<open>
  A manager whose only model timed out on a backend that answers 204 and is starting;
  a backend that does not answer for 30 cycles and would answer 200 from then on; a
  manager whose only model timed out on it.
\<close>

definition w_starting :: world where
  "w_starting = snd (run [AddModel no_quant env_ready True req_m, RunTask env_204 0] (init cfg0))"

definition env_late :: launch_env where
  "env_late = \<lparr>spawn = Inr 4242, now = 1, poll = (\<lambda>k. None), log_text = [],
                probe = (\<lambda>k. if k < 30 then None else Some 200)\<rparr>"

definition w_late :: world where
  "w_late = snd (run [AddModel no_quant env_ready True req_m, RunTask env_late 0] (init cfg0))"

text \<open>
  The calls of \<^verbatim>\<open>_get_next_port\<close> an operation makes, as the values they return:
  \<^verbatim>\<open>add_model\<close> calls it once when the identity is new and the request has no port
  (lines 135-140, before the quantization and the launch), \<^verbatim>\<open>add_model_from_config\<close>
  twice when the descriptor has an identity (lines 98-99), and no other operation of the
  manager or of the handlers calls it.
\<close>

definition draws :: "op \<Rightarrow> world \<Rightarrow> int list" where
  "draws x w =
     (case x of
        GetNextPort \<Rightarrow> [next_port w]
      | AddModel qenv env bg rq \<Rightarrow>
          if map_of (models w) (req_model_id rq) = None \<and> req_port rq = None
          then [next_port w] else []
      | ApiAddModel qenv env rq \<Rightarrow>
          if map_of (models w) (req_model_id rq) = None \<and> req_port rq = None
          then [next_port w] else []
      | AddModelFromConfig env mc \<Rightarrow>
          (case cfg_model_id mc of
             None \<Rightarrow> []
           | Some k \<Rightarrow> if k = [] then [] else [next_port w, next_port w + 1])
      | other \<Rightarrow> [])"

text \<open>
  More samples: a quantization tool that fails, a request that asks for quantization, a
  saved descriptor of another identity, and a run that goes through a failed quantization,
  a failed awaited launch, a descriptor, a removal, a registration of the removed identity
  and a direct call of the allocator, with the states between its operations.
\<close>

definition quant_fail :: quant_env where
  "quant_fail = \<lparr>already_quantized = False, quant_returncode = 1, quant_stderr = ''no gpu''\<rparr>"

definition req_q :: add_request where
  "req_q = \<lparr>req_model_id = ''org/q'', req_port = None, req_gpu_id = 0, req_quantize = True,
            req_quant_method = ''awq'', req_quant_bits = 4, req_max_model_len = 8192,
            req_memory_util = 9 / 10\<rparr>"

definition mc1 :: model_config where
  "mc1 = \<lparr>cfg_model_id = Some ''org/c'', cfg_port = None, cfg_gpu_id = None,
           cfg_quantization = None\<rparr>"

definition ops_ports :: "op list" where
  "ops_ports =
     [AddModel quant_fail env_ready False req_q,
      AddModel no_quant env_exit False req_m,
      AddModelFromConfig env_ready mc1,
      RemoveModel kill_ok ''org/m'',
      AddModel no_quant env_ready True req_m,
      GetNextPort]"

definition w_p1 :: world where
  "w_p1 = snd (step (AddModel quant_fail env_ready False req_q) (init cfg0))"

definition w_p2 :: world where
  "w_p2 = snd (step (AddModel no_quant env_exit False req_m) w_p1)"

definition w_p3 :: world where
  "w_p3 = snd (step (AddModelFromConfig env_ready mc1) w_p2)"

definition w_p4 :: world where
  "w_p4 = snd (step (RemoveModel kill_ok ''org/m'') w_p3)"

definition w_p5 :: world where
  "w_p5 = snd (step (AddModel no_quant env_ready True req_m) w_p4)"

section \<open>Basic facts\<close>

text \<open>The helpers on the state, field by field.\<close>

lemma upd_obj_fields [simp]:
  "config (upd_obj a f w) = config w"
  "models (upd_obj a f w) = models w"
  "next_port (upd_obj a f w) = next_port w"
  "tasks (upd_obj a f w) = tasks w"
  "signals (upd_obj a f w) = signals w"
  "outbound (upd_obj a f w) = outbound w"
  "drawn (upd_obj a f w) = drawn w"
  "error_log (upd_obj a f w) = error_log w"
  "config_files (upd_obj a f w) = config_files w"
  "heap (upd_obj a f w) = (heap w)[a := f (heap w ! a)]"
  by (simp_all add: upd_obj_def)

lemma set_status_fields [simp]:
  "config (set_status a s w) = config w"
  "models (set_status a s w) = models w"
  "next_port (set_status a s w) = next_port w"
  "tasks (set_status a s w) = tasks w"
  "signals (set_status a s w) = signals w"
  "outbound (set_status a s w) = outbound w"
  "drawn (set_status a s w) = drawn w"
  "error_log (set_status a s w) = error_log w"
  "config_files (set_status a s w) = config_files w"
  "heap (set_status a s w) = (heap w)[a := (heap w ! a)\<lparr>status := s\<rparr>]"
  by (simp_all add: set_status_def)

lemma log_error_fields [simp]:
  "config (log_error m w) = config w"
  "models (log_error m w) = models w"
  "next_port (log_error m w) = next_port w"
  "tasks (log_error m w) = tasks w"
  "signals (log_error m w) = signals w"
  "outbound (log_error m w) = outbound w"
  "drawn (log_error m w) = drawn w"
  "error_log (log_error m w) = error_log w @ [m]"
  "config_files (log_error m w) = config_files w"
  "heap (log_error m w) = heap w"
  by (simp_all add: log_error_def)

lemma send_signal_fields [simp]:
  "config (send_signal p s w) = config w"
  "models (send_signal p s w) = models w"
  "next_port (send_signal p s w) = next_port w"
  "tasks (send_signal p s w) = tasks w"
  "signals (send_signal p s w) = signals w @ [(p, s)]"
  "outbound (send_signal p s w) = outbound w"
  "drawn (send_signal p s w) = drawn w"
  "error_log (send_signal p s w) = error_log w"
  "config_files (send_signal p s w) = config_files w"
  "heap (send_signal p s w) = heap w"
  by (simp_all add: send_signal_def)

lemma send_out_fields [simp]:
  "config (send_out c w) = config w"
  "models (send_out c w) = models w"
  "next_port (send_out c w) = next_port w"
  "tasks (send_out c w) = tasks w"
  "signals (send_out c w) = signals w"
  "outbound (send_out c w) = outbound w @ [c]"
  "drawn (send_out c w) = drawn w"
  "error_log (send_out c w) = error_log w"
  "config_files (send_out c w) = config_files w"
  "heap (send_out c w) = heap w"
  by (simp_all add: send_out_def)

lemma save_model_config_fields [simp]:
  "config (save_model_config a w) = config w"
  "models (save_model_config a w) = models w"
  "next_port (save_model_config a w) = next_port w"
  "tasks (save_model_config a w) = tasks w"
  "signals (save_model_config a w) = signals w"
  "outbound (save_model_config a w) = outbound w"
  "drawn (save_model_config a w) = drawn w"
  "error_log (save_model_config a w) = error_log w"
  "heap (save_model_config a w) = heap w"
  by (simp_all add: save_model_config_def)

text \<open>What a launch leaves alone.\<close>

lemma start_model_server_frame:
  "models (snd (start_model_server env a w)) = models w"
  "next_port (snd (start_model_server env a w)) = next_port w"
  "tasks (snd (start_model_server env a w)) = tasks w"
  "signals (snd (start_model_server env a w)) = signals w"
  "outbound (snd (start_model_server env a w)) = outbound w"
  "config_files (snd (start_model_server env a w)) = config_files w"
  "config (snd (start_model_server env a w)) = config w"
  "drawn (snd (start_model_server env a w)) = drawn w"
  "length (heap (snd (start_model_server env a w))) = length (heap w)"
  by (simp_all add: start_model_server_def Let_def split: sum.splits wait_result.splits)

lemma start_model_server_other:
  "b \<noteq> a \<Longrightarrow> heap (snd (start_model_server env a w)) ! b = heap w ! b"
  by (simp add: start_model_server_def Let_def split: sum.splits wait_result.splits)

section \<open>The port allocator\<close>

text \<open>Only \<open>get_next_port\<close> writes \<open>next_port\<close>, and it adds one.\<close>

lemma quantize_model_next_port:
  "next_port (snd (quantize_model qenv m qm qb w)) = next_port w"
  by (simp add: quantize_model_def Let_def)

lemma register_from_config_next_port:
  "next_port w \<le> next_port (snd (register_from_config mc w))"
  by (simp add: register_from_config_def get_next_port_def new_object_def Let_def
      split: option.splits)

lemma register_model_next_port:
  "next_port w \<le> next_port (snd (register_model qenv rq w))"
  by (simp add: register_model_def get_next_port_def new_object_def Let_def
      quantize_model_next_port case_prod_unfold split: option.splits sum.splits)

lemma add_model_from_config_next_port:
  "next_port w \<le> next_port (snd (add_model_from_config env mc w))"
  using register_from_config_next_port [of w mc]
  by (simp add: add_model_from_config_def start_model_server_frame case_prod_unfold
      split: sum.splits)

lemma add_model_next_port:
  "next_port w \<le> next_port (snd (add_model qenv env bg rq w))"
  using register_model_next_port [of w qenv rq]
  by (simp add: add_model_def start_model_server_frame case_prod_unfold split: sum.splits)

lemma run_task_next_port: "next_port (snd (run_task env i w)) = next_port w"
  by (simp add: run_task_def start_model_server_frame)

lemma stop_process_fields [simp]:
  "config (stop_process env p w) = config w"
  "models (stop_process env p w) = models w"
  "next_port (stop_process env p w) = next_port w"
  "tasks (stop_process env p w) = tasks w"
  "outbound (stop_process env p w) = outbound w"
  "config_files (stop_process env p w) = config_files w"
  "drawn (stop_process env p w) = drawn w"
  "heap (stop_process env p w) = heap w"
  by (simp_all add: stop_process_def Let_def split: kill_result.splits prod.splits)

lemma remove_model_next_port: "next_port (snd (remove_model env key w)) = next_port w"
  by (simp add: remove_model_def Let_def split: option.splits)

lemma api_remove_model_next_port: "next_port (snd (api_remove_model env key w)) = next_port w"
  using remove_model_next_port [of env key w]
  by (simp add: api_remove_model_def case_prod_unfold split: sum.splits exn.splits)

lemma api_add_model_next_port:
  "next_port w \<le> next_port (snd (api_add_model qenv env rq w))"
  using add_model_next_port [of w qenv env True rq]
  by (simp add: api_add_model_def case_prod_unfold split: sum.splits)

lemma proxy_request_next_port:
  "next_port (snd (proxy_request be rq target endpoint w)) = next_port w"
  by (simp add: proxy_request_def proxy_standard_request_def proxy_streaming_request_def Let_def
      case_prod_unfold split: sum.splits json.splits backend.splits proxy_exn.splits option.splits)

lemma route_next_port: "next_port (snd (route label endpoint be rq w)) = next_port w"
  by (simp add: route_def internal_error_def proxy_request_next_port Let_def case_prod_unfold
      split: sum.splits json.splits option.splits)

lemma stream_generator_next_port: "next_port (snd (stream_generator sb c w)) = next_port w"
  by (simp add: stream_generator_def Let_def split: stream_backend.splits)

lemma step_next_port: "next_port w \<le> next_port (snd (step x w))"
proof (cases x)
  case GetNextPort
  then show ?thesis by (simp add: get_next_port_def)
next
  case (AddModel qenv env bg rq)
  then show ?thesis using add_model_next_port [of w qenv env bg rq]
    by (simp add: case_prod_unfold)
next
  case (AddModelFromConfig env mc)
  then show ?thesis using add_model_from_config_next_port [of w env mc]
    by (simp add: case_prod_unfold)
next
  case (RunTask env i)
  then show ?thesis using run_task_next_port [of env i w] by (simp add: case_prod_unfold)
next
  case (RemoveModel env key)
  then show ?thesis using remove_model_next_port [of env key w] by (simp add: case_prod_unfold)
next
  case (ApiAddModel qenv env rq)
  then show ?thesis using api_add_model_next_port [of w qenv env rq]
    by (simp add: case_prod_unfold)
next
  case (ApiRemoveModel env key)
  then show ?thesis using api_remove_model_next_port [of env key w]
    by (simp add: case_prod_unfold)
next
  case (ChatCompletions be rq)
  then show ?thesis using route_next_port [of "''chat completions''" "''chat/completions''" be rq w]
    by (simp add: chat_completions_def case_prod_unfold)
next
  case (Completions be rq)
  then show ?thesis using route_next_port [of "''completions''" "''completions''" be rq w]
    by (simp add: completions_def case_prod_unfold)
next
  case (RunStream sb c)
  then show ?thesis using stream_generator_next_port [of sb c w] by (simp add: case_prod_unfold)
qed

lemma step_port_out:
  "fst (step x w) = PortOut p \<Longrightarrow> p = next_port w \<and> next_port (snd (step x w)) = p + 1"
  by (cases x) (auto simp: get_next_port_def case_prod_unfold)

lemma run_reserved_bound:
  "list_all (\<lambda>p. next_port w \<le> p) (reserved (fst (run xs w)))"
proof (induction xs arbitrary: w)
  case Nil
  show ?case by (simp add: reserved_def)
next
  case (Cons x xs)
  obtain r w1 where s: "step x w = (r, w1)" by (cases "step x w")
  obtain rs w2 where t: "run xs w1 = (rs, w2)" by (cases "run xs w1")
  have le: "next_port w \<le> next_port w1" using step_next_port [of w x] s by simp
  have "list_all (\<lambda>p. next_port w1 \<le> p) (reserved rs)" using Cons.IH [of w1] t by simp
  then have tl: "list_all (\<lambda>p. next_port w \<le> p) (reserved rs)"
    using le by (simp add: list_all_iff) force
  have hd: "list_all (\<lambda>p. next_port w \<le> p) (reserved [r])"
    using step_port_out [of x w] s by (cases r) (simp_all add: reserved_def)
  have "reserved (r # rs) = reserved [r] @ reserved rs" by (simp add: reserved_def)
  then show ?case using s t hd tl by simp
qed

lemma run_reserved_sorted: "sorted_wrt (<) (reserved (fst (run xs w)))"
proof (induction xs arbitrary: w)
  case Nil
  show ?case by (simp add: reserved_def)
next
  case (Cons x xs)
  obtain r w1 where s: "step x w = (r, w1)" by (cases "step x w")
  obtain rs w2 where t: "run xs w1 = (rs, w2)" by (cases "run xs w1")
  have ih: "sorted_wrt (<) (reserved rs)" using Cons.IH [of w1] t by simp
  have bound: "list_all (\<lambda>p. next_port w1 \<le> p) (reserved rs)"
    using run_reserved_bound [of w1 xs] t by simp
  show ?case
  proof (cases r)
    case (PortOut p)
    then have "next_port w1 = p + 1" using step_port_out [of x w p] s by simp
    then have "list_all (\<lambda>q. p < q) (reserved rs)"
      using bound by (simp add: list_all_iff) force
    then show ?thesis using s t ih PortOut by (simp add: reserved_def list_all_iff)
  qed (use s t ih in \<open>simp_all add: reserved_def\<close>)
qed

section \<open>Decimal numerals\<close>

text \<open>\<open>str_int\<close> can be read back, so different integers print differently.\<close>

lemma digit_cases: "d < 10 \<Longrightarrow> d = 0 \<or> d = 1 \<or> d = 2 \<or> d = 3 \<or> d = 4 \<or> d = 5 \<or> d = 6 \<or> d = 7 \<or> d = 8 \<or> d = (9::nat)"
  by arith

lemma digit_val_digit_char: "d < 10 \<Longrightarrow> digit_val (digit_char d) = d"
  using digit_cases [of d] by (auto simp: digit_val_def digit_char_def)

lemma digit_char_not_minus: "d < 10 \<Longrightarrow> digit_char d \<noteq> CHR ''-''"
  using digit_cases [of d] by (auto simp: digit_char_def)

lemma nat_of_str_snoc: "nat_of_str (s @ [c]) = 10 * nat_of_str s + digit_val c"
  by (simp add: nat_of_str_def)

lemma nat_of_str_str_nat: "nat_of_str (str_nat n) = n"
proof (induction n rule: str_nat.induct)
  case (1 n)
  show ?case
  proof (cases "n < 10")
    case True
    then show ?thesis
      by (subst str_nat.simps) (simp add: nat_of_str_def digit_val_digit_char)
  next
    case False
    then have "nat_of_str (str_nat (n div 10)) = n div 10" using "1.IH" by simp
    with False show ?thesis
      by (subst str_nat.simps) (simp add: nat_of_str_snoc digit_val_digit_char)
  qed
qed

lemma str_nat_first: "\<exists>c r. str_nat n = c # r \<and> c \<noteq> CHR ''-''"
proof (induction n rule: str_nat.induct)
  case (1 n)
  show ?case
  proof (cases "n < 10")
    case True
    then show ?thesis by (subst str_nat.simps) (simp add: digit_char_not_minus)
  next
    case False
    then obtain c r where "str_nat (n div 10) = c # r" "c \<noteq> CHR ''-''"
      using "1.IH" by auto
    with False show ?thesis by (subst str_nat.simps) simp
  qed
qed

lemma int_of_str_str_int: "int_of_str (str_int i) = i"
proof (cases "i < 0")
  case True
  then show ?thesis by (simp add: str_int_def int_of_str_def nat_of_str_str_nat)
next
  case False
  obtain c r where cr: "str_nat (nat i) = c # r" and c: "c \<noteq> CHR ''-''"
    using str_nat_first [of "nat i"] by auto
  have "int_of_str (c # r) = int (nat_of_str (c # r))"
    using c by (simp add: int_of_str_def)
  also have "\<dots> = int (nat_of_str (str_nat (nat i)))" by (simp only: cr)
  also have "\<dots> = int (nat i)" by (simp only: nat_of_str_str_nat)
  also have "\<dots> = i" using False by simp
  finally have "int_of_str (str_nat (nat i)) = i" by (simp only: cr)
  moreover have "str_int i = str_nat (nat i)" using False by (simp add: str_int_def)
  ultimately show ?thesis by simp
qed

lemma str_int_inject: "str_int i = str_int j \<longleftrightarrow> i = j"
proof
  assume "str_int i = str_int j"
  then have "int_of_str (str_int i) = int_of_str (str_int j)" by (rule arg_cong)
  then show "i = j" by (simp only: int_of_str_str_int)
next
  assume "i = j"
  then show "str_int i = str_int j" by simp
qed

section \<open>Registration from a saved descriptor\<close>

text \<open>A launch writes the status, the process id and the start time of its record only.\<close>

lemma nth_update_if: "xs[a := x] ! b = (if b = a \<and> a < length xs then x else xs ! b)"
  by (cases "a < length xs") (auto simp: nth_list_update list_update_beyond)

lemma start_model_server_keeps:
  "port (heap (snd (start_model_server env a w)) ! b) = port (heap w ! b)"
  "url (heap (snd (start_model_server env a w)) ! b) = url (heap w ! b)"
  "id_field (heap (snd (start_model_server env a w)) ! b) = id_field (heap w ! b)"
  "name (heap (snd (start_model_server env a w)) ! b) = name (heap w ! b)"
  by (simp_all add: start_model_server_def Let_def nth_update_if split: sum.splits wait_result.splits)

lemma register_from_config_result:
  assumes "cfg_model_id mc = Some model_id" and "model_id \<noteq> []"
  shows "fst (register_from_config mc w) = Inr (length (heap w))"
    and "next_port (snd (register_from_config mc w)) = next_port w + 2"
    and "map_of (models (snd (register_from_config mc w))) model_id = Some (length (heap w))"
    and "heap (snd (register_from_config mc w)) ! length (heap w) =
           \<lparr> id_field = model_id, name = basename model_id,
             port = (case cfg_port mc of None \<Rightarrow> next_port w | Some p \<Rightarrow> p),
             url = ''http://localhost:''
                     @ str_int (case cfg_port mc of None \<Rightarrow> next_port w + 1 | Some p \<Rightarrow> p),
             gpu_id = (case cfg_gpu_id mc of None \<Rightarrow> 0 | Some g \<Rightarrow> g),
             status = ''loading'',
             quantization =
               (case cfg_quantization mc of
                  None \<Rightarrow> \<lparr>q_enabled = False, q_method = ''none'', q_bits = 4\<rparr>
                | Some q \<Rightarrow>
                    \<lparr> q_enabled = (case cq_enabled q of None \<Rightarrow> False | Some b \<Rightarrow> b),
                      q_method = (case cq_method q of None \<Rightarrow> ''none'' | Some m \<Rightarrow> m),
                      q_bits = (case cq_bits q of None \<Rightarrow> 4 | Some b \<Rightarrow> b) \<rparr>),
             pid = None, start_time = None \<rparr>"
  using assms
  by (simp_all add: register_from_config_def get_next_port_def new_object_def Let_def
      update_conv' split: option.splits)

text \<open>
  Claim C10. \<open>add_model_from_config\<close> on a descriptor with an identity draws the port
  allocator twice (also when the descriptor has a port). When the descriptor has no
  port, the record gets the first port drawn and its URL names the second, one greater;
  the URL names the port of the record exactly when the descriptor has a port.
\<close>

theorem config_port_drawn_twice:
  assumes "cfg_model_id mc = Some model_id" and "model_id \<noteq> []"
  shows "next_port (snd (add_model_from_config env mc w)) = next_port w + 2
    \<and> map_of (models (snd (add_model_from_config env mc w))) model_id = Some (length (heap w))
    \<and> (cfg_port mc = None \<longrightarrow>
         port (heap (snd (add_model_from_config env mc w)) ! length (heap w)) = next_port w
         \<and> url (heap (snd (add_model_from_config env mc w)) ! length (heap w))
             = ''http://localhost:''
                 @ str_int (port (heap (snd (add_model_from_config env mc w)) ! length (heap w)) + 1))
    \<and> (url (heap (snd (add_model_from_config env mc w)) ! length (heap w))
           = ''http://localhost:''
               @ str_int (port (heap (snd (add_model_from_config env mc w)) ! length (heap w)))
         \<longleftrightarrow> cfg_port mc \<noteq> None)"
proof -
  let ?w1 = "snd (register_from_config mc w)"
  let ?a = "length (heap w)"
  have r: "fst (register_from_config mc w) = Inr ?a"
    using assms by (rule register_from_config_result)
  have w': "snd (add_model_from_config env mc w) = snd (start_model_server env ?a ?w1)"
    using r by (simp add: add_model_from_config_def case_prod_unfold split: sum.splits)
  have np: "next_port ?w1 = next_port w + 2" using assms by (rule register_from_config_result)
  have mo: "map_of (models ?w1) model_id = Some ?a" using assms by (rule register_from_config_result)
  note rec = register_from_config_result(4) [OF assms, of w]
  have p: "port (heap ?w1 ! ?a) = (case cfg_port mc of None \<Rightarrow> next_port w | Some p \<Rightarrow> p)"
    by (simp add: rec)
  have u: "url (heap ?w1 ! ?a) = ''http://localhost:''
             @ str_int (case cfg_port mc of None \<Rightarrow> next_port w + 1 | Some p \<Rightarrow> p)"
    by (simp add: rec)
  show ?thesis
    unfolding w'
    by (simp add: start_model_server_frame start_model_server_keeps np mo p u str_int_inject
        split: option.splits)
qed

lemma env_ready_wait: "wait_for_server env_ready 0 30 = Ready"
  by (simp add: env_ready_def eval_nat_numeral)

lemma str_8001: "str_int 8001 = ''8001''"
  by (simp add: str_int_def str_nat.simps digit_char_def)

text \<open>An example from a fresh manager: the record has port 8000, its URL says 8001.\<close>

theorem config_port_drawn_twice_witness:
  "cfg_model_id mc0 = Some ''org/m'' \<and> ''org/m'' \<noteq> []
   \<and> next_port (snd (add_model_from_config env_ready mc0 (init cfg0))) = 8002
   \<and> port (heap (snd (add_model_from_config env_ready mc0 (init cfg0))) ! 0) = 8000
   \<and> url (heap (snd (add_model_from_config env_ready mc0 (init cfg0))) ! 0)
        = ''http://localhost:8001''"
  using config_port_drawn_twice [of mc0 "''org/m''" env_ready "init cfg0"]
  by (simp add: mc0_def init_def cfg0_def str_8001)

section \<open>The headers the proxy forwards\<close>

lemma lower_names:
  "map lower_char ''Content-Type'' = ''content-type''"
  "map lower_char ''Authorization'' = ''authorization''"
  by (simp_all add: lower_char_def)

lemma forwarded_headers_map_of:
  "map_of (forwarded_headers hs) k =
     (if k = ''Content-Type'' \<or> k = ''Authorization'' then header_get hs k else None)"
  by (simp add: forwarded_headers_def update_conv' split: option.splits)

lemma forwarded_headers_keys:
  "fst ` set (forwarded_headers hs) \<subseteq> {''Content-Type'', ''Authorization''}"
proof
  fix k assume "k \<in> fst ` set (forwarded_headers hs)"
  then have "map_of (forwarded_headers hs) k \<noteq> None"
    by (simp add: map_of_eq_None_iff)
  then show "k \<in> {''Content-Type'', ''Authorization''}"
    by (simp add: forwarded_headers_map_of split: if_splits)
qed

lemma proxy_request_calls:
  "(outbound (snd (proxy_request be rq target endpoint w)) = outbound w
    \<or> (\<exists>c. outbound (snd (proxy_request be rq target endpoint w)) = outbound w @ [c]
            \<and> out_headers c = forwarded_headers (req_headers rq)))
   \<and> (\<forall>c. fst (proxy_request be rq target endpoint w) = Inr (StreamingResponse c)
          \<longrightarrow> out_headers c = forwarded_headers (req_headers rq))"
  by (simp add: proxy_request_def proxy_standard_request_def proxy_streaming_request_def Let_def
      case_prod_unfold
      split: sum.splits json.splits backend.splits proxy_exn.splits option.splits)

lemma route_via_proxy:
  "(\<exists>e. fst (route label endpoint be rq w) = Inl e
        \<and> outbound (snd (route label endpoint be rq w)) = outbound w)
   \<or> (\<exists>t. outbound (snd (route label endpoint be rq w))
              = outbound (snd (proxy_request be rq t endpoint w))
          \<and> (\<forall>resp. fst (route label endpoint be rq w) = Inr resp
                 \<longrightarrow> fst (proxy_request be rq t endpoint w) = Inr resp))"
proof (cases "req_json rq")
  case (Inl msg)
  then show ?thesis by (simp add: route_def internal_error_def)
next
  case (Inr body)
  show ?thesis
  proof (cases "\<exists>kvs v a. body = JDict kvs \<and> map_of kvs ''model'' = Some v \<and> truthy v
                  \<and> lookup_key w v = Inr (Some a) \<and> status (heap w ! a) = ''ready''")
    case True
    then obtain kvs v a where b: "body = JDict kvs" "map_of kvs ''model'' = Some v" "truthy v"
      "lookup_key w v = Inr (Some a)" "status (heap w ! a) = ''ready''" by blast
    have "\<exists>t. outbound (snd (route label endpoint be rq w))
              = outbound (snd (proxy_request be rq t endpoint w))
          \<and> (\<forall>resp. fst (route label endpoint be rq w) = Inr resp
                 \<longrightarrow> fst (proxy_request be rq t endpoint w) = Inr resp)"
      using Inr b
      by (intro exI [of _ "url (heap w ! a)"])
        (simp add: route_def internal_error_def Let_def case_prod_unfold split: sum.splits)
    then show ?thesis by blast
  next
    case False
    then have "\<exists>e. fst (route label endpoint be rq w) = Inl e
        \<and> outbound (snd (route label endpoint be rq w)) = outbound w"
      using Inr
      by (cases body)
        (auto simp: route_def internal_error_def Let_def split: option.splits sum.splits)
    then show ?thesis by blast
  qed
qed

lemma route_calls:
  "(outbound (snd (route label endpoint be rq w)) = outbound w
    \<or> (\<exists>c. outbound (snd (route label endpoint be rq w)) = outbound w @ [c]
            \<and> out_headers c = forwarded_headers (req_headers rq)))
   \<and> (\<forall>c. fst (route label endpoint be rq w) = Inr (StreamingResponse c)
          \<longrightarrow> out_headers c = forwarded_headers (req_headers rq))"
  using route_via_proxy [of label endpoint be rq w] proxy_request_calls [of be rq _ endpoint w]
  by (metis sum.distinct(1))

lemma str_8000: "str_int 8000 = ''8000''"
  by (simp add: str_int_def str_nat.simps digit_char_def)

lemma env_ready_fields:
  "spawn env_ready = Inr 4242" "now env_ready = 1"
  by (simp_all add: env_ready_def)

lemma w_ready_eq:
  "w_ready =
     \<lparr> config = cfg0, models = [(''org/m'', 0)], next_port = 8001,
       heap = [\<lparr> id_field = ''org/m'', name = ''m'', port = 8000,
                 url = ''http://localhost:8000'', gpu_id = 0, status = ''ready'',
                 quantization = \<lparr>q_enabled = False, q_method = ''none'', q_bits = 0\<rparr>,
                 pid = Some 4242, start_time = Some 1 \<rparr>],
       tasks = [], signals = [], outbound = [], error_log = [],
       config_files = {''config/model_configs/m.json''}, drawn = [8000] \<rparr>"
  by (simp add: w_ready_def add_model_def register_model_def req_m_def init_def cfg0_def
      get_next_port_def new_object_def Let_def start_model_server_def env_ready_wait
      upd_obj_def set_status_def save_model_config_def config_file_of_def basename_def
      replace_slash_def str_8000 env_ready_fields)

lemma route_forwards:
  "list_all (\<lambda>c. out_headers c = forwarded_headers (req_headers rq))
     (forwarded_calls (route label endpoint be rq w) w)"
  using route_calls [of label endpoint be rq w]
  by (auto simp: forwarded_calls_def split: sum.splits response.splits)

text \<open>
  Claim C9. Every request that \<open>chat_completions\<close> or \<open>completions\<close> sends to a backend, at
  once or through a streaming response, carries exactly the headers \<open>forwarded_headers\<close>
  of the inbound request: no name but \<^verbatim>\<open>Content-Type\<close> and \<^verbatim>\<open>Authorization\<close>, and each of
  the two with the value the inbound request has for it, absent when it has none.
\<close>

theorem forwards_whitelisted_headers_only:
  "list_all (\<lambda>c. out_headers c = forwarded_headers (req_headers rq))
     (forwarded_calls (chat_completions be rq w) w)
   \<and> list_all (\<lambda>c. out_headers c = forwarded_headers (req_headers rq))
     (forwarded_calls (completions be rq w) w)
   \<and> fst ` set (forwarded_headers (req_headers rq)) \<subseteq> {''Content-Type'', ''Authorization''}
   \<and> map_of (forwarded_headers (req_headers rq)) k =
       (if k = ''Content-Type'' \<or> k = ''Authorization''
        then header_get (req_headers rq) k else None)"
  by (simp add: chat_completions_def completions_def route_forwards forwarded_headers_keys
      forwarded_headers_map_of)

lemma rq_chat_forwarded:
  "forwarded_headers (req_headers rq_chat)
     = [(''Content-Type'', ''application/json''), (''Authorization'', ''Bearer t'')]"
  by (simp add: forwarded_headers_def header_get_def rq_chat_def lower_char_def)

lemma rq_chat_json: "req_json rq_chat = Inr (JDict [(''model'', JStr ''org/m'')])"
  by (simp add: rq_chat_def)

text \<open>An example: of three inbound headers the two listed ones reach the backend.\<close>

theorem forwards_whitelisted_headers_only_witness:
  "map out_headers (forwarded_calls (chat_completions be_ok rq_chat w_ready) w_ready)
     = [[(''Content-Type'', ''application/json''), (''Authorization'', ''Bearer t'')]]"
  using forwards_whitelisted_headers_only [of rq_chat be_ok w_ready "''Content-Type''"]
  by (simp add: forwarded_calls_def chat_completions_def route_def rq_chat_json w_ready_eq
      get_model_def proxy_request_def proxy_standard_request_def be_ok_def is_success_def
      rq_chat_forwarded Let_def)

section \<open>Routing\<close>

lemma model_keyD:
  "model_key rq = Some key \<Longrightarrow>
     \<exists>kvs. req_json rq = Inr (JDict kvs) \<and> map_of kvs ''model'' = Some (JStr key)"
  by (auto simp: model_key_def split: sum.splits json.splits option.splits)

lemma route_not_found:
  assumes "model_key rq = Some key" and "key \<noteq> []" and "get_model w key = None"
  shows "route label endpoint be rq w
           = (Inl (HTTPException 404 (''Model '' @ key @ '' not found'')), w)"
  using model_keyD [OF assms(1)] assms(2,3) by (auto simp: route_def)

lemma route_not_ready:
  assumes "model_key rq = Some key" and "key \<noteq> []" and "get_model w key = Some a"
    and "status (heap w ! a) \<noteq> ''ready''"
  shows "route label endpoint be rq w
           = (Inl (HTTPException 503 (''Model '' @ key @ '' is not ready (status: ''
                      @ status (heap w ! a) @ '')'')), w)"
  using model_keyD [OF assms(1)] assms(2-) by (auto simp: route_def Let_def)

text \<open>The empty string is falsy: lines 184-185 (215-216) answer 400 before the lookup.\<close>

lemma route_empty_key:
  assumes "model_key rq = Some []"
  shows "route label endpoint be rq w = (Inl (HTTPException 400 ''Model ID is required''), w)"
  using model_keyD [OF assms] by (auto simp: route_def)

lemma forwarded_calls_same:
  "forwarded_calls (Inl e, w) w = []"
  by (simp add: forwarded_calls_def)

lemma route_forwarded_ready:
  assumes "forwarded_calls (route label endpoint be rq w) w \<noteq> []"
  shows "\<exists>key a. model_key rq = Some key \<and> get_model w key = Some a
            \<and> status (heap w ! a) = ''ready''"
proof (rule ccontr)
  assume n: "\<not> ?thesis"
  have "forwarded_calls (route label endpoint be rq w) w = []"
  proof (cases "req_json rq")
    case (Inl msg)
    then show ?thesis by (simp add: route_def internal_error_def forwarded_calls_def)
  next
    case (Inr body)
    show ?thesis
    proof (cases body)
      case (JDict kvs)
      show ?thesis
      proof (cases "map_of kvs ''model''")
        case None
        with Inr JDict show ?thesis by (simp add: route_def forwarded_calls_def Let_def)
      next
        case (Some v)
        show ?thesis
        proof (cases v)
          case (JStr key)
          then have mk: "model_key rq = Some key"
            using Inr JDict Some by (simp add: model_key_def)
          show ?thesis
          proof (cases "key = []")
            case True
            with Inr JDict Some JStr show ?thesis by (simp add: route_def forwarded_calls_def Let_def)
          next
            case False
            show ?thesis
            proof (cases "get_model w key")
              case None
              then show ?thesis
                using route_not_found [OF mk False] by (simp add: forwarded_calls_same)
            next
              case (Some a)
              then have "status (heap w ! a) \<noteq> ''ready''" using n mk by auto
              then show ?thesis
                using route_not_ready [OF mk False Some] by (simp add: forwarded_calls_same)
            qed
          qed
        qed (use Inr JDict Some in
              \<open>simp_all add: route_def internal_error_def forwarded_calls_def Let_def\<close>)
      qed
    qed (use Inr in \<open>simp_all add: route_def internal_error_def forwarded_calls_def Let_def\<close>)
  qed
  with assms show False by simp
qed

lemma route_forwarded_key:
  assumes "forwarded_calls (route label endpoint be rq w) w \<noteq> []"
  shows "\<exists>key a. model_key rq = Some key \<and> key \<noteq> [] \<and> get_model w key = Some a
            \<and> status (heap w ! a) = ''ready''"
proof -
  obtain key a where k: "model_key rq = Some key" "get_model w key = Some a"
    "status (heap w ! a) = ''ready''"
    using route_forwarded_ready [OF assms] by blast
  have "key \<noteq> []"
  proof
    assume e: "key = []"
    have "model_key rq = Some []" using k(1) unfolding e .
    then have "route label endpoint be rq w
        = (Inl (HTTPException 400 ''Model ID is required''), w)"
      by (rule route_empty_key)
    then show False using assms by (simp add: forwarded_calls_same)
  qed
  then show ?thesis using k by blast
qed

lemma w_loading_eq:
  "w_loading =
     \<lparr> config = cfg0, models = [(''org/m'', 0)], next_port = 8001,
       heap = [\<lparr> id_field = ''org/m'', name = ''m'', port = 8000,
                 url = ''http://localhost:8000'', gpu_id = 0, status = ''loading'',
                 quantization = \<lparr>q_enabled = False, q_method = ''none'', q_bits = 0\<rparr>,
                 pid = None, start_time = None \<rparr>],
       tasks = [\<lparr>task_ref = 0, task_deployed = ''org/m'', task_max_model_len = 8192,
                 task_memory_util = 9 / 10\<rparr>],
       signals = [], outbound = [], error_log = [],
       config_files = {''config/model_configs/m.json''}, drawn = [8000] \<rparr>"
  by (simp add: w_loading_def add_model_def register_model_def req_m_def init_def cfg0_def
      get_next_port_def new_object_def Let_def save_model_config_def config_file_of_def
      basename_def replace_slash_def str_8000)

lemma rq_chat_key: "model_key rq_chat = Some ''org/m''"
  by (simp add: model_key_def rq_chat_def)

lemma rq_chat_forwarded_ready:
  "forwarded_calls (chat_completions be_ok rq_chat w_ready) w_ready \<noteq> []"
  by (simp add: forwarded_calls_def chat_completions_def route_def rq_chat_json w_ready_eq
      get_model_def proxy_request_def proxy_standard_request_def be_ok_def is_success_def
      rq_chat_forwarded Let_def)

lemma w_slash_facts:
  "get_model w_slash [] = Some 0" "status (heap w_slash ! 0) = ''loading''"
  by (simp_all add: w_slash_def add_model_def register_model_def req_slash_def init_def cfg0_def
      no_quant_def get_next_port_def new_object_def Let_def save_model_config_def
      get_model_def basename_def)

lemma rq_empty_key: "model_key rq_empty = Some []"
  by (simp add: model_key_def rq_empty_def)

text \<open>
  Claim C6 says that a key which resolves to no record is answered with not-found, and a
  key which resolves to a record that is not ready with not-ready. The empty string is a
  key: in a fresh manager it resolves to no record, and in the manager below \<open>get_model\<close>
  resolves it to the loading record, whose name it is. Both handlers answer 400 in both
  managers, neither 404 nor 503: the key is tested for truth (lines 184 and 215) before
  it is looked up.
\<close>

theorem empty_key_counterexample:
  "model_key rq_empty = Some []
   \<and> get_model (init cfg0) [] = None
   \<and> chat_completions be_ok rq_empty (init cfg0)
       = (Inl (HTTPException 400 ''Model ID is required''), init cfg0)
   \<and> completions be_ok rq_empty (init cfg0)
       = (Inl (HTTPException 400 ''Model ID is required''), init cfg0)
   \<and> get_model w_slash [] = Some 0 \<and> status (heap w_slash ! 0) = ''loading''
   \<and> chat_completions be_ok rq_empty w_slash
       = (Inl (HTTPException 400 ''Model ID is required''), w_slash)
   \<and> completions be_ok rq_empty w_slash
       = (Inl (HTTPException 400 ''Model ID is required''), w_slash)"
proof -
  have "get_model (init cfg0) [] = None" by (simp add: get_model_def init_def)
  then show ?thesis
    using rq_empty_key w_slash_facts route_empty_key [OF rq_empty_key]
    by (simp add: chat_completions_def completions_def)
qed

text \<open>
  Claim C6, amended. For a request whose model key is a non-empty string, both handlers:
  when \<open>get_model\<close> finds no record, the result is the status 404 and the state is the one
  before, so nothing was sent; when it finds a record whose status is not ready, the
  result is the status 503 and the state is the one before. A request whose model key is
  the empty string is answered with the status 400, whatever the registry holds, and the
  state is the one before. Whenever a request is sent to a backend, at once or through a
  streaming response, the key is a non-empty string that resolved to a record whose
  status is ready.
\<close>

theorem route_only_to_ready:
  "(model_key rq = Some key \<and> key \<noteq> [] \<and> get_model w key = None \<longrightarrow>
      chat_completions be rq w
        = (Inl (HTTPException 404 (''Model '' @ key @ '' not found'')), w)
      \<and> completions be rq w
        = (Inl (HTTPException 404 (''Model '' @ key @ '' not found'')), w))
   \<and> (model_key rq = Some key \<and> key \<noteq> [] \<and> get_model w key = Some a
        \<and> status (heap w ! a) \<noteq> ''ready'' \<longrightarrow>
      chat_completions be rq w
        = (Inl (HTTPException 503 (''Model '' @ key @ '' is not ready (status: ''
                   @ status (heap w ! a) @ '')'')), w)
      \<and> completions be rq w
        = (Inl (HTTPException 503 (''Model '' @ key @ '' is not ready (status: ''
                   @ status (heap w ! a) @ '')'')), w))
   \<and> (model_key rq = Some [] \<longrightarrow>
      chat_completions be rq w = (Inl (HTTPException 400 ''Model ID is required''), w)
      \<and> completions be rq w = (Inl (HTTPException 400 ''Model ID is required''), w))
   \<and> (forwarded_calls (chat_completions be rq w) w \<noteq> []
        \<or> forwarded_calls (completions be rq w) w \<noteq> [] \<longrightarrow>
      (\<exists>k b. model_key rq = Some k \<and> k \<noteq> [] \<and> get_model w k = Some b
             \<and> status (heap w ! b) = ''ready''))"
  using route_not_found [of rq key w] route_not_ready [of rq key w a]
    route_forwarded_key [of "''chat completions''" "''chat/completions''" be rq w]
    route_forwarded_key [of "''completions''" "''completions''" be rq w]
    route_empty_key [of rq "''chat completions''" "''chat/completions''" be w]
    route_empty_key [of rq "''completions''" "''completions''" be w]
  unfolding chat_completions_def completions_def by blast

text \<open>
  Examples: no model registered, 404; the model still loading, 503; the empty key, 400;
  the model ready, a request goes out.
\<close>

theorem route_only_to_ready_witness:
  "chat_completions be_ok rq_chat (init cfg0)
     = (Inl (HTTPException 404 ''Model org/m not found''), init cfg0)
   \<and> chat_completions be_ok rq_chat w_loading
     = (Inl (HTTPException 503 ''Model org/m is not ready (status: loading)''), w_loading)
   \<and> model_key rq_empty = Some []
   \<and> completions be_ok rq_empty w_ready
     = (Inl (HTTPException 400 ''Model ID is required''), w_ready)
   \<and> forwarded_calls (chat_completions be_ok rq_chat w_ready) w_ready \<noteq> []
   \<and> get_model w_ready ''org/m'' = Some 0 \<and> status (heap w_ready ! 0) = ''ready''"
proof -
  have a: "get_model (init cfg0) ''org/m'' = None" by (simp add: get_model_def init_def)
  have b: "get_model w_loading ''org/m'' = Some 0" "status (heap w_loading ! 0) = ''loading''"
    by (simp_all add: get_model_def w_loading_eq)
  have c: "get_model w_ready ''org/m'' = Some 0" "status (heap w_ready ! 0) = ''ready''"
    by (simp_all add: get_model_def w_ready_eq)
  show ?thesis
    using route_only_to_ready [of rq_chat "''org/m''" "init cfg0" be_ok 0]
      route_only_to_ready [of rq_chat "''org/m''" w_loading be_ok 0]
      route_only_to_ready [of rq_empty "''org/m''" w_ready be_ok 0]
      rq_chat_key rq_empty_key a b c rq_chat_forwarded_ready
    by simp
qed

section \<open>Removal of a key\<close>

lemma get_model_None_iff:
  "get_model w key = None \<longleftrightarrow>
     map_of (models w) key = None
     \<and> \<not> list_ex (\<lambda>(k, a). name (heap w ! a) = key) (models w)"
  by (auto simp: get_model_def find_None_iff list_ex_iff split: option.splits)

lemma kill_ok_wait: "wait_for_exit kill_ok 0 10 = (1, False)"
  by (simp add: kill_ok_def eval_nat_numeral)

lemma kill_ok_fields:
  "on_sigterm kill_ok = Delivered" "on_sigkill kill_ok = Delivered"
  by (simp_all add: kill_ok_def)

lemma stop_process_kill_ok:
  "stop_process kill_ok p w = w\<lparr>signals := signals w @ [(p, 15), (p, 0)]\<rparr>"
  by (simp add: stop_process_def kill_ok_wait kill_ok_fields send_signal_def Let_def)

text \<open>
  Claim C8 says that removing an identity that is not in the registry is answered with
  not-found, sends no signal and changes nothing. The key \<^verbatim>\<open>m\<close> is not an identity of the
  registry below, whose only identity is \<^verbatim>\<open>org/m\<close>; it is the name of that record, so
  \<open>get_model\<close> finds it: the process is signalled and the record is removed.
\<close>

theorem remove_by_name_counterexample:
  "map_of (models w_ready) ''m'' = None
   \<and> remove_model kill_ok ''m'' w_ready
       = (Inr (''org/m'', ''m'', 8000),
          w_ready\<lparr>models := [], signals := [(4242, 15), (4242, 0)], config_files := {}\<rparr>)
   \<and> fst (api_remove_model kill_ok ''m'' w_ready) = Inr (''org/m'', ''m'', 8000)"
proof -
  have r: "remove_model kill_ok ''m'' w_ready
       = (Inr (''org/m'', ''m'', 8000),
          w_ready\<lparr>models := [], signals := [(4242, 15), (4242, 0)], config_files := {}\<rparr>)"
    by (simp add: w_ready_eq remove_model_def get_model_def Let_def stop_process_kill_ok
        config_file_of_def replace_slash_def)
  show ?thesis using r by (simp add: api_remove_model_def) (simp add: w_ready_eq)
qed

text \<open>
  Claim C8, amended. When \<open>get_model\<close> finds nothing for the key, which is when the key is
  neither an identity of the registry nor the name of one of its records,
  \<open>remove_model\<close> raises \<^verbatim>\<open>KeyError\<close>, the handler answers 404, and the state is the one
  before: no signal, no change of the registry.
\<close>

theorem remove_unknown_key:
  assumes "get_model w key = None"
  shows "remove_model env key w = (Inl (KeyError (''Model '' @ key @ '' not found'')), w)
    \<and> api_remove_model env key w
        = (Inl (HTTPException 404 (''Model '' @ key @ '' not found'')), w)
    \<and> map_of (models w) key = None
    \<and> \<not> list_ex (\<lambda>(k, a). name (heap w ! a) = key) (models w)"
  using assms by (simp add: remove_model_def api_remove_model_def get_model_None_iff [symmetric])

text \<open>An example: a key that is neither the identity nor the name of the only record.\<close>

theorem remove_unknown_key_witness:
  "get_model w_ready ''other'' = None
   \<and> remove_model kill_ok ''other'' w_ready
       = (Inl (KeyError ''Model other not found''), w_ready)
   \<and> api_remove_model kill_ok ''other'' w_ready
       = (Inl (HTTPException 404 ''Model other not found''), w_ready)"
proof -
  have g: "get_model w_ready ''other'' = None" by (simp add: get_model_def w_ready_eq)
  show ?thesis using remove_unknown_key [OF g, of kill_ok] g by simp
qed

section \<open>Registering an identity twice\<close>

text \<open>
  \<open>add_model\<close> checks the identity first (lines 135-136): on an identity of the registry
  it raises \<^verbatim>\<open>ValueError\<close> and changes nothing.
\<close>

lemma add_model_duplicate:
  "map_of (models w) (req_model_id rq) = Some a \<Longrightarrow>
     add_model qenv env bg rq w
       = (Inl (ValueError (''Model '' @ req_model_id rq @ '' already exists'')), w)"
  by (simp add: add_model_def register_model_def)

lemma register_model_present:
  assumes "map_of (models w) (req_model_id rq) = None"
    and "\<not> (req_quantize rq \<and> \<not> already_quantized qenv \<and> quant_returncode qenv \<noteq> 0)"
  shows "map_of (models (snd (register_model qenv rq w))) (req_model_id rq)
           = Some (length (heap w))"
  using assms
  by (auto simp: register_model_def Let_def new_object_def case_prod_unfold update_conv'
      quantize_model_def get_next_port_def split: option.splits)

lemma add_model_models:
  "models (snd (add_model qenv env bg rq w)) = models (snd (register_model qenv rq w))"
  by (simp add: add_model_def case_prod_unfold start_model_server_frame split: sum.splits)

lemma add_model_present:
  assumes "map_of (models w) (req_model_id rq) = None"
    and "\<not> (req_quantize rq \<and> \<not> already_quantized qenv \<and> quant_returncode qenv \<noteq> 0)"
  shows "map_of (models (snd (add_model qenv env bg rq w))) (req_model_id rq)
           = Some (length (heap w))"
  using register_model_present [OF assms] by (simp add: add_model_models)

text \<open>Twice through \<open>add_model\<close>: the second call fails and changes nothing.\<close>

lemma add_model_twice:
  assumes "map_of (models w) (req_model_id rq) = None"
    and "\<not> (req_quantize rq \<and> \<not> already_quantized qenv \<and> quant_returncode qenv \<noteq> 0)"
    and "req_model_id rq' = req_model_id rq"
  shows "add_model qenv' env' bg' rq' (snd (add_model qenv env bg rq w))
           = (Inl (ValueError (''Model '' @ req_model_id rq @ '' already exists'')),
              snd (add_model qenv env bg rq w))"
  using add_model_duplicate [of "snd (add_model qenv env bg rq w)" rq' "length (heap w)"]
    add_model_present [OF assms(1,2)] assms(3) by simp

lemma str_ports: "str_int 8003 = ''8003''"
  by (simp add: str_int_def str_nat.simps digit_char_def)

lemma w_cfg_eq:
  "w_cfg =
     \<lparr> config = cfg0, models = [(''org/m'', 0)], next_port = 8002,
       heap = [\<lparr> id_field = ''org/m'', name = ''m'', port = 8000,
                 url = ''http://localhost:8001'', gpu_id = 0, status = ''ready'',
                 quantization = \<lparr>q_enabled = False, q_method = ''none'', q_bits = 4\<rparr>,
                 pid = Some 4242, start_time = Some 1 \<rparr>],
       tasks = [], signals = [], outbound = [], error_log = [], config_files = {},
       drawn = [8000, 8001] \<rparr>"
  by (simp add: w_cfg_def add_model_from_config_def register_from_config_def mc0_def init_def
      cfg0_def get_next_port_def new_object_def Let_def start_model_server_def env_ready_wait
      upd_obj_def set_status_def basename_def str_8001 env_ready_fields)

text \<open>
  Claim C3. A registration of an identity that is registered already fails with a
  duplicate-identity error and leaves the first record as it was. \<open>add_model\<close> does so
  (\<open>add_model_twice\<close>). \<open>add_model_from_config\<close> has no such check: called twice with one
  descriptor, the second call succeeds, and the identity now stands for a new record,
  loading again during the launch, with the port 8002 where the first had 8000.
\<close>

theorem config_registered_twice:
  "map_of (models w_cfg) ''org/m'' = Some 0
   \<and> port (heap w_cfg ! 0) = 8000 \<and> status (heap w_cfg ! 0) = ''ready''
   \<and> fst (register_from_config mc0 w_cfg) = Inr 1
   \<and> map_of (models (snd (register_from_config mc0 w_cfg))) ''org/m'' = Some 1
   \<and> port (heap (snd (register_from_config mc0 w_cfg)) ! 1) = 8002
   \<and> status (heap (snd (register_from_config mc0 w_cfg)) ! 1) = ''loading''
   \<and> fst (add_model_from_config env_ready mc0 w_cfg) = Inr 1
   \<and> models (snd (add_model_from_config env_ready mc0 w_cfg)) = [(''org/m'', 1)]
   \<and> url (heap (snd (add_model_from_config env_ready mc0 w_cfg)) ! 1) = ''http://localhost:8003''"
  by (simp add: w_cfg_eq add_model_from_config_def register_from_config_def mc0_def
      get_next_port_def new_object_def Let_def start_model_server_def env_ready_wait
      upd_obj_def set_status_def basename_def str_ports env_ready_fields)

section \<open>Errors at the proxy\<close>



text \<open>
  In streaming mode the result is the streaming response whatever the backend does: the
  handlers of lines 49-66 never see what the generator raises later.
\<close>

lemma proxy_streaming_blind:
  assumes "req_json rq = Inr (JDict kvs)" and "map_of kvs ''stream'' = Some v" and "truthy v"
  shows "proxy_request be rq target endpoint w =
     (Inr (StreamingResponse
        \<lparr> out_url = target @ ''/v1/'' @ endpoint, out_body = JDict kvs,
          out_headers = forwarded_headers (req_headers rq), out_timeout = 600,
          out_stream = True \<rparr>), w)"
  using assms by (simp add: proxy_request_def proxy_streaming_request_def Let_def)

lemma stream_generator_raises:
  "\<not> is_success (rep_status r) \<Longrightarrow>
     fst (stream_generator (StreamResponds r chunks broken) c w) = ([], Some (HTTPStatusError r))"
  "fst (stream_generator (StreamUnreachable msg) c w) = ([], Some (RequestError msg))"
  by (simp_all add: stream_generator_def Let_def)




section \<open>The readiness poll\<close>

text \<open>Cycles that resolve nothing are skipped; the first one that resolves decides.\<close>

lemma wait_for_server_skip:
  "(\<forall>j<k. poll env (i + j) = None \<and> probe env (i + j) \<noteq> Some 200) \<Longrightarrow>
     wait_for_server env i (k + n) = wait_for_server env (i + k) n"
proof (induction k arbitrary: i)
  case 0
  show ?case by simp
next
  case (Suc k)
  have here: "poll env i = None" "probe env i \<noteq> Some 200" using Suc.prems [rule_format, of 0] by simp_all
  have rest: "\<forall>j<k. poll env (Suc i + j) = None \<and> probe env (Suc i + j) \<noteq> Some 200"
    using Suc.prems by (metis Suc_less_eq add_Suc_shift)
  have "wait_for_server env i (Suc k + n) = wait_for_server env (Suc i) (k + n)"
    using here by (simp split: option.splits)
  also have "\<dots> = wait_for_server env (Suc i + k) n" by (rule Suc.IH [OF rest])
  finally show ?case by simp
qed


lemma wait_for_server_timeout:
  assumes "\<forall>j<30. poll env j = None \<and> probe env j \<noteq> Some 200"
  shows "wait_for_server env 0 30 = TimedOut"
proof -
  have "wait_for_server env 0 (30 + 0) = wait_for_server env (0 + 30) 0"
    by (rule wait_for_server_skip) (use assms in simp)
  then show ?thesis by simp
qed



lemma start_model_server_timed_out:
  assumes "spawn env = Inr p" and "wait_for_server env 0 30 = TimedOut" and "a < length (heap w)"
  shows "fst (start_model_server env a w) = Inr ()"
    and "status (heap (snd (start_model_server env a w)) ! a) = ''starting''"
    and "error_log (snd (start_model_server env a w)) = error_log w"
  using assms by (simp_all add: start_model_server_def Let_def)


lemma env_204_fields:
  "spawn env_204 = Inr 4242" "poll env_204 k = None" "probe env_204 k = Some 204"
  by (simp_all add: env_204_def)





section \<open>The invariant and the status of a record\<close>

text \<open>The invariant under the list operations the code performs.\<close>

lemma launched_known: "launched_status s \<Longrightarrow> known_status s"
  by (auto simp: launched_status_def known_status_def)

lemma tasks_ok_grow: "tasks_ok h ts \<Longrightarrow> tasks_ok (h @ [m]) ts"
  by (auto simp: tasks_ok_def list_all_iff nth_append)

lemma tasks_ok_new:
  assumes "tasks_ok h ts" and "status m = ''loading''" and "task_ref t = length h"
  shows "tasks_ok (h @ [m]) (ts @ [t])"
  using assms by (auto simp: tasks_ok_def list_all_iff nth_append)

lemma tasks_ok_update:
  assumes "tasks_ok h ts" and "a \<notin> task_ref ` set ts"
  shows "tasks_ok (h[a := m]) ts"
proof -
  have "\<And>t. t \<in> set ts \<Longrightarrow> task_ref t \<noteq> a" using assms(2) by auto
  then show ?thesis using assms(1) by (auto simp: tasks_ok_def list_all_iff nth_update_if)
qed

lemma tasks_ok_take:
  assumes "tasks_ok h ts" and "i < length ts"
  shows "tasks_ok h (take i ts @ drop (Suc i) ts)"
    and "task_ref (ts ! i) \<notin> task_ref ` set (take i ts @ drop (Suc i) ts)"
    and "task_ref (ts ! i) < length h" and "status (h ! task_ref (ts ! i)) = ''loading''"
proof -
  have ts: "ts = take i ts @ ts ! i # drop (Suc i) ts"
    using assms(2) by (simp add: id_take_nth_drop)
  have d: "distinct (map task_ref (take i ts @ ts ! i # drop (Suc i) ts))"
    using assms(1) ts by (simp add: tasks_ok_def)
  have a: "list_all (\<lambda>t. task_ref t < length h \<and> status (h ! task_ref t) = ''loading'')
             (take i ts @ ts ! i # drop (Suc i) ts)"
    using assms(1) ts by (simp add: tasks_ok_def)
  show "tasks_ok h (take i ts @ drop (Suc i) ts)"
    using d a by (simp add: tasks_ok_def)
  show "task_ref (ts ! i) \<notin> task_ref ` set (take i ts @ drop (Suc i) ts)"
    using d by auto
  show "task_ref (ts ! i) < length h" "status (h ! task_ref (ts ! i)) = ''loading''"
    using a by simp_all
qed

lemma models_ok_grow: "models_ok h ms \<Longrightarrow> models_ok (h @ [m]) ms"
  by (auto simp: models_ok_def list_all_iff nth_append)

lemma set_update_subset: "set (AList.update k v al) \<subseteq> insert (k, v) (set al)"
  by (induction al) auto

lemma set_delete_subset: "set (AList.delete k al) \<subseteq> set al"
  by (auto simp: AList.delete_eq)

lemma models_ok_new:
  assumes "models_ok h ms" and "id_field m = k"
  shows "models_ok (h @ [m]) (AList.update k (length h) ms)"
proof -
  have "\<And>k' a. (k', a) \<in> set (AList.update k (length h) ms) \<Longrightarrow>
          (k', a) = (k, length h) \<or> (k', a) \<in> set ms"
    using set_update_subset [of k "length h" ms] by auto
  then show ?thesis
    using assms by (fastforce simp: models_ok_def list_all_iff nth_append)
qed

lemma models_ok_update:
  assumes "models_ok h ms" and "a < length h \<Longrightarrow> id_field m = id_field (h ! a)"
  shows "models_ok (h[a := m]) ms"
  using assms by (auto simp: models_ok_def list_all_iff nth_update_if)

lemma models_ok_delete: "models_ok h ms \<Longrightarrow> models_ok h (AList.delete k ms)"
  using set_delete_subset [of k ms] by (auto simp: models_ok_def list_all_iff)

lemma heap_ok_grow: "heap_ok h \<Longrightarrow> known_status (status m) \<Longrightarrow> heap_ok (h @ [m])"
  by (simp add: heap_ok_def)

lemma heap_ok_update: "heap_ok h \<Longrightarrow> known_status (status m) \<Longrightarrow> heap_ok (h[a := m])"
  by (auto simp: heap_ok_def list_all_iff dest: set_update_subset_insert [THEN subsetD])

text \<open>Each kind of effect keeps the invariant and moves statuses along the edges.\<close>

lemma effect_consistent:
  assumes "effect w w'" and "consistent w"
  shows "consistent w'"
proof -
  from assms(2) have t: "tasks_ok (heap w) (tasks w)" and m: "models_ok (heap w) (models w)"
    and h: "heap_ok (heap w)" by (simp_all add: consistent_def)
  consider "quiet w w'" | "removes w w'" | "creates w w'" | "launches w w'"
    using assms(1) by (auto simp: effect_def)
  then show ?thesis
  proof cases
    case 1
    then show ?thesis using t m h by (simp add: quiet_def consistent_def)
  next
    case 2
    then show ?thesis using t m h by (auto simp: removes_def consistent_def models_ok_delete)
  next
    case 3
    then obtain mi where c: "heap w' = heap w @ [mi]" "known_status (status mi)"
      "models w' = AList.update (id_field mi) (length (heap w)) (models w)"
      "tasks w' = tasks w
         \<or> (status mi = ''loading''
             \<and> (\<exists>t. task_ref t = length (heap w) \<and> tasks w' = tasks w @ [t]))"
      by (auto simp: creates_def)
    have "tasks_ok (heap w') (tasks w')"
      using c(1,4) t by (auto simp: tasks_ok_grow tasks_ok_new)
    moreover have "models_ok (heap w') (models w')"
      using c(1,3) m by (simp add: models_ok_new)
    moreover have "heap_ok (heap w')" using c(1,2) h by (simp add: heap_ok_grow)
    ultimately show ?thesis by (simp add: consistent_def)
  next
    case 4
    then obtain i mi where l: "i < length (tasks w)"
      "heap w' = (heap w)[task_ref (tasks w ! i) := mi]" "launched_status (status mi)"
      "id_field mi = id_field (heap w ! task_ref (tasks w ! i))" "models w' = models w"
      "tasks w' = take i (tasks w) @ drop (Suc i) (tasks w)"
      by (auto simp: launches_def)
    note tk = tasks_ok_take [OF t l(1)]
    have "tasks_ok (heap w') (tasks w')"
      using tasks_ok_update [OF tk(1) tk(2)] l(2,6) by simp
    moreover have "models_ok (heap w') (models w')"
      using models_ok_update [OF m] l(2,4,5) by simp
    moreover have "heap_ok (heap w')"
      using heap_ok_update [OF h launched_known [OF l(3)]] l(2) by simp
    ultimately show ?thesis by (simp add: consistent_def)
  qed
qed

lemma effect_heap_grows: "effect w w' \<Longrightarrow> length (heap w) \<le> length (heap w')"
  by (auto simp: effect_def quiet_def removes_def creates_def launches_def)

lemma effect_obj_edge:
  assumes "effect w w'" and "consistent w" and "b < length (heap w)"
  shows "obj_edge (status (heap w ! b)) (status (heap w' ! b))"
proof -
  from assms(2) have t: "tasks_ok (heap w) (tasks w)" by (simp add: consistent_def)
  consider "quiet w w'" | "removes w w'" | "creates w w'" | "launches w w'"
    using assms(1) by (auto simp: effect_def)
  then show ?thesis
  proof cases
    case 1
    then show ?thesis by (simp add: quiet_def obj_edge_def)
  next
    case 2
    then show ?thesis by (simp add: removes_def obj_edge_def)
  next
    case 3
    then show ?thesis using assms(3) by (auto simp: creates_def obj_edge_def nth_append)
  next
    case 4
    then obtain i mi where l: "i < length (tasks w)"
      "heap w' = (heap w)[task_ref (tasks w ! i) := mi]" "launched_status (status mi)"
      by (auto simp: launches_def)
    note tk = tasks_ok_take [OF t l(1)]
    show ?thesis using l(2,3) tk(3,4) by (simp add: obj_edge_def nth_update_if)
  qed
qed

lemma status_of_grow:
  assumes "models_ok h ms" and "map_of ms k = Some a"
  shows "a < length h" and "id_field (h ! a) = k"
proof -
  have "(k, a) \<in> set ms" using assms(2) by (rule map_of_SomeD)
  then show "a < length h" "id_field (h ! a) = k"
    using assms(1) by (auto simp: models_ok_def list_all_iff)
qed

lemma effect_id_edge:
  assumes "effect w w'" and "consistent w"
    and "\<And>m. heap w' = heap w @ [m] \<Longrightarrow> map_of (models w) (id_field m) = None"
  shows "id_edge (status_of w k) (status_of w' k)"
proof -
  from assms(2) have t: "tasks_ok (heap w) (tasks w)" and m: "models_ok (heap w) (models w)"
    by (simp_all add: consistent_def)
  consider "quiet w w'" | "removes w w'" | "creates w w'" | "launches w w'"
    using assms(1) by (auto simp: effect_def)
  then show ?thesis
  proof cases
    case 1
    then have "status_of w' k = status_of w k" by (simp add: quiet_def status_of_def)
    then show ?thesis
      by (auto simp: id_edge_def obj_edge_def split: option.splits)
  next
    case 2
    then obtain k' where d: "heap w' = heap w" "models w' = AList.delete k' (models w)"
      by (auto simp: removes_def)
    have "status_of w' k = (if k = k' then None else status_of w k)"
      using d by (simp add: status_of_def delete_conv')
    then show ?thesis by (auto simp: id_edge_def obj_edge_def split: option.splits)
  next
    case 3
    then obtain mi where c: "heap w' = heap w @ [mi]" "known_status (status mi)"
      "models w' = AList.update (id_field mi) (length (heap w)) (models w)"
      by (auto simp: creates_def)
    have fresh: "map_of (models w) (id_field mi) = None" using assms(3) c(1) by simp
    show ?thesis
    proof (cases "k = id_field mi")
      case True
      then have "status_of w k = None" "status_of w' k = Some (status mi)"
        using fresh c by (simp_all add: status_of_def update_conv')
      then show ?thesis using c(2) by (simp add: id_edge_def)
    next
      case False
      have "status_of w' k = status_of w k"
      proof (cases "map_of (models w) k")
        case None
        then show ?thesis using False c by (simp add: status_of_def update_conv')
      next
        case (Some a)
        then have "a < length (heap w)" using status_of_grow [OF m] by simp
        then show ?thesis using False c Some by (simp add: status_of_def update_conv' nth_append)
      qed
      then show ?thesis by (auto simp: id_edge_def obj_edge_def split: option.splits)
    qed
  next
    case 4
    then obtain i mi where l: "i < length (tasks w)"
      "heap w' = (heap w)[task_ref (tasks w ! i) := mi]" "launched_status (status mi)"
      "models w' = models w"
      by (auto simp: launches_def)
    note tk = tasks_ok_take [OF t l(1)]
    show ?thesis
    proof (cases "map_of (models w) k")
      case None
      then show ?thesis using l(4) by (simp add: status_of_def id_edge_def)
    next
      case (Some a)
      then show ?thesis
        using l(2,3,4) tk(3,4)
        by (simp add: status_of_def id_edge_def obj_edge_def nth_update_if)
    qed
  qed
qed

text \<open>What each operation does, as an effect.\<close>

lemma start_model_server_status:
  "a < length (heap w) \<Longrightarrow>
     launched_status (status (heap (snd (start_model_server env a w)) ! a))"
  by (simp add: start_model_server_def Let_def launched_status_def
      split: sum.splits wait_result.splits)

lemma start_model_server_heap:
  "heap (snd (start_model_server env a w))
     = (heap w)[a := heap (snd (start_model_server env a w)) ! a]"
  by (rule nth_equalityI)
    (simp_all add: start_model_server_frame nth_update_if start_model_server_other)

lemma register_model_effect:
  "(\<exists>e. fst (register_model qenv rq w) = Inl e \<and> quiet w (snd (register_model qenv rq w)))
   \<or> (\<exists>d m. fst (register_model qenv rq w) = Inr (length (heap w), d)
         \<and> heap (snd (register_model qenv rq w)) = heap w @ [m]
         \<and> status m = ''loading'' \<and> id_field m = req_model_id rq
         \<and> models (snd (register_model qenv rq w))
             = AList.update (req_model_id rq) (length (heap w)) (models w)
         \<and> tasks (snd (register_model qenv rq w)) = tasks w
         \<and> map_of (models w) (req_model_id rq) = None)"
  by (simp add: register_model_def Let_def case_prod_unfold new_object_def get_next_port_def
      quantize_model_def quiet_def split: option.splits)

lemma register_from_config_effect:
  "(\<exists>e. fst (register_from_config mc w) = Inl e \<and> quiet w (snd (register_from_config mc w)))
   \<or> (\<exists>k m. cfg_model_id mc = Some k
         \<and> fst (register_from_config mc w) = Inr (length (heap w))
         \<and> heap (snd (register_from_config mc w)) = heap w @ [m]
         \<and> status m = ''loading'' \<and> id_field m = k
         \<and> models (snd (register_from_config mc w))
             = AList.update k (length (heap w)) (models w)
         \<and> tasks (snd (register_from_config mc w)) = tasks w)"
  by (simp add: register_from_config_def Let_def case_prod_unfold new_object_def
      get_next_port_def quiet_def split: option.splits)

text \<open>A launch awaited on the record just created.\<close>

lemma launch_created:
  assumes "heap w1 = h @ [m0]" and "status m0 = ''loading''"
  shows "\<exists>m. heap (snd (start_model_server env (length h) w1)) = h @ [m]
           \<and> known_status (status m) \<and> id_field m = id_field m0"
proof -
  let ?w2 = "snd (start_model_server env (length h) w1)"
  have l: "length h < length (heap w1)" using assms(1) by simp
  have "heap ?w2 = (h @ [m0])[length h := heap ?w2 ! length h]"
    using start_model_server_heap [of env "length h" w1] assms(1) by simp
  then have "heap ?w2 = h @ [heap ?w2 ! length h]" by simp
  moreover have "known_status (status (heap ?w2 ! length h))"
    using start_model_server_status [OF l] by (rule launched_known)
  moreover have "id_field (heap ?w2 ! length h) = id_field m0"
    using assms(1) by (simp add: start_model_server_keeps)
  ultimately show ?thesis by blast
qed

lemma quiet_effect: "quiet w w' \<Longrightarrow> effect w w'"
  by (simp add: effect_def)

lemma add_model_effect:
  "effect w (snd (add_model qenv env bg rq w))
   \<and> (\<forall>m. heap (snd (add_model qenv env bg rq w)) = heap w @ [m]
          \<longrightarrow> map_of (models w) (id_field m) = None)"
proof -
  let ?r = "register_model qenv rq w"
  let ?w1 = "snd ?r"
  consider e where "fst ?r = Inl e" "quiet w ?w1"
    | d m0 where "fst ?r = Inr (length (heap w), d)" "heap ?w1 = heap w @ [m0]"
        "status m0 = ''loading''" "id_field m0 = req_model_id rq"
        "models ?w1 = AList.update (req_model_id rq) (length (heap w)) (models w)"
        "tasks ?w1 = tasks w" "map_of (models w) (req_model_id rq) = None"
    using register_model_effect [of qenv rq w] by blast
  then show ?thesis
  proof cases
    case 1
    then have "snd (add_model qenv env bg rq w) = ?w1"
      by (simp add: add_model_def case_prod_unfold)
    then show ?thesis using 1(2) by (simp add: effect_def quiet_def)
  next
    case 2
    show ?thesis
    proof (cases bg)
      case True
      let ?t = "\<lparr> task_ref = length (heap w), task_deployed = d,
                  task_max_model_len = req_max_model_len rq,
                  task_memory_util = req_memory_util rq \<rparr>"
      have w': "snd (add_model qenv env bg rq w)
                  = save_model_config (length (heap w)) (?w1\<lparr>tasks := tasks ?w1 @ [?t]\<rparr>)"
        using True 2(1) by (simp add: add_model_def case_prod_unfold)
      have "creates w (snd (add_model qenv env bg rq w))"
        unfolding creates_def w'
        using 2 by (intro exI [of _ m0]) (simp add: known_status_def)
      then show ?thesis using 2 w' by (simp add: effect_def)
    next
      case False
      let ?w2 = "snd (start_model_server env (length (heap w)) ?w1)"
      obtain m where m: "heap ?w2 = heap w @ [m]" "known_status (status m)"
        "id_field m = id_field m0"
        using launch_created [OF 2(2,3), of env] by blast
      have h: "heap (snd (add_model qenv env bg rq w)) = heap ?w2"
        and mo: "models (snd (add_model qenv env bg rq w)) = models ?w1"
        and ta: "tasks (snd (add_model qenv env bg rq w)) = tasks ?w1"
        using False 2(1)
        by (simp_all add: add_model_def case_prod_unfold start_model_server_frame
            split: sum.splits)
      have "creates w (snd (add_model qenv env bg rq w))"
        unfolding creates_def
        using 2 m h mo ta by (intro exI [of _ m]) simp
      then show ?thesis using 2 m h by (simp add: effect_def)
    qed
  qed
qed

lemma add_model_from_config_effect:
  "effect w (snd (add_model_from_config env mc w))
   \<and> (\<forall>m. heap (snd (add_model_from_config env mc w)) = heap w @ [m]
          \<longrightarrow> cfg_model_id mc = Some (id_field m))"
proof -
  let ?r = "register_from_config mc w"
  let ?w1 = "snd ?r"
  consider e where "fst ?r = Inl e" "quiet w ?w1"
    | k m0 where "cfg_model_id mc = Some k" "fst ?r = Inr (length (heap w))"
        "heap ?w1 = heap w @ [m0]"
        "status m0 = ''loading''" "id_field m0 = k"
        "models ?w1 = AList.update k (length (heap w)) (models w)"
        "tasks ?w1 = tasks w"
    using register_from_config_effect [of mc w] by blast
  then show ?thesis
  proof cases
    case 1
    then have "snd (add_model_from_config env mc w) = ?w1"
      by (simp add: add_model_from_config_def case_prod_unfold)
    then show ?thesis using 1(2) by (simp add: effect_def quiet_def)
  next
    case 2
    let ?w2 = "snd (start_model_server env (length (heap w)) ?w1)"
    obtain m where m: "heap ?w2 = heap w @ [m]" "known_status (status m)"
      "id_field m = id_field m0"
      using launch_created [OF 2(3,4), of env] by blast
    have w': "snd (add_model_from_config env mc w) = ?w2"
      using 2(2) by (simp add: add_model_from_config_def case_prod_unfold split: sum.splits)
    have "creates w ?w2"
      unfolding creates_def
      using 2 m by (intro exI [of _ m]) (simp add: start_model_server_frame)
    then show ?thesis using 2 m w' by (simp add: effect_def)
  qed
qed

lemma run_task_effect:
  assumes "consistent w"
  shows "effect w (snd (run_task env i w))
    \<and> length (heap (snd (run_task env i w))) = length (heap w)"
proof (cases "i < length (tasks w)")
  case False
  then show ?thesis by (simp add: run_task_def effect_def quiet_def)
next
  case True
  let ?a = "task_ref (tasks w ! i)"
  let ?w1 = "w\<lparr>tasks := take i (tasks w) @ drop (Suc i) (tasks w)\<rparr>"
  let ?w2 = "snd (start_model_server env ?a ?w1)"
  have w': "snd (run_task env i w) = ?w2" using True by (simp add: run_task_def)
  have t: "tasks_ok (heap w) (tasks w)" using assms by (simp add: consistent_def)
  have a: "?a < length (heap ?w1)" using tasks_ok_take(3) [OF t True] by simp
  have "launches w ?w2"
    unfolding launches_def
    using True a start_model_server_heap [of env ?a ?w1] start_model_server_status [OF a, of env]
    by (intro exI [of _ i] exI [of _ "heap ?w2 ! ?a"])
      (simp add: start_model_server_frame start_model_server_keeps)
  then show ?thesis using w' by (simp add: effect_def start_model_server_frame)
qed

lemma remove_model_effect:
  "effect w (snd (remove_model env key w))
   \<and> length (heap (snd (remove_model env key w))) = length (heap w)"
  by (auto simp: remove_model_def Let_def effect_def quiet_def removes_def
      split: option.splits)

lemma api_remove_model_effect:
  "effect w (snd (api_remove_model env key w))
   \<and> length (heap (snd (api_remove_model env key w))) = length (heap w)"
proof -
  have "heap (snd (api_remove_model env key w)) = heap (snd (remove_model env key w))"
    "models (snd (api_remove_model env key w)) = models (snd (remove_model env key w))"
    "tasks (snd (api_remove_model env key w)) = tasks (snd (remove_model env key w))"
    by (simp_all add: api_remove_model_def case_prod_unfold split: sum.splits exn.splits)
  then show ?thesis
    using remove_model_effect [of w env key]
    by (simp add: effect_def quiet_def removes_def creates_def launches_def)
qed

lemma api_add_model_effect:
  "effect w (snd (api_add_model qenv env rq w))
   \<and> (\<forall>m. heap (snd (api_add_model qenv env rq w)) = heap w @ [m]
          \<longrightarrow> map_of (models w) (id_field m) = None)"
proof -
  have "heap (snd (api_add_model qenv env rq w)) = heap (snd (add_model qenv env True rq w))"
    "models (snd (api_add_model qenv env rq w)) = models (snd (add_model qenv env True rq w))"
    "tasks (snd (api_add_model qenv env rq w)) = tasks (snd (add_model qenv env True rq w))"
    by (simp_all add: api_add_model_def case_prod_unfold split: sum.splits)
  then show ?thesis
    using add_model_effect [of w qenv env True rq]
    by (simp add: effect_def quiet_def removes_def creates_def launches_def)
qed

lemma proxy_request_quiet: "quiet w (snd (proxy_request be rq target endpoint w))"
  by (simp add: proxy_request_def proxy_standard_request_def proxy_streaming_request_def Let_def
      case_prod_unfold quiet_def
      split: sum.splits json.splits backend.splits proxy_exn.splits option.splits)

lemma route_quiet: "quiet w (snd (route label endpoint be rq w))"
  using proxy_request_quiet
  by (simp add: route_def internal_error_def Let_def case_prod_unfold quiet_def
      split: sum.splits json.splits option.splits)

lemma stream_generator_quiet: "quiet w (snd (stream_generator sb c w))"
  by (simp add: stream_generator_def Let_def quiet_def split: stream_backend.splits)

lemma step_effect:
  assumes "consistent w"
  shows "effect w (snd (step x w))"
proof (cases x)
  case GetNextPort
  then show ?thesis by (simp add: get_next_port_def effect_def quiet_def)
next
  case (AddModel qenv env bg rq)
  then show ?thesis using add_model_effect [of w qenv env bg rq] by (simp add: case_prod_unfold)
next
  case (AddModelFromConfig env mc)
  then show ?thesis using add_model_from_config_effect [of w env mc]
    by (simp add: case_prod_unfold)
next
  case (RunTask env i)
  then show ?thesis using run_task_effect [OF assms, of env i] by (simp add: case_prod_unfold)
next
  case (RemoveModel env key)
  then show ?thesis using remove_model_effect [of w env key] by (simp add: case_prod_unfold)
next
  case (ApiAddModel qenv env rq)
  then show ?thesis using api_add_model_effect [of w qenv env rq] by (simp add: case_prod_unfold)
next
  case (ApiRemoveModel env key)
  then show ?thesis using api_remove_model_effect [of w env key] by (simp add: case_prod_unfold)
next
  case (ChatCompletions be rq)
  then show ?thesis
    using route_quiet [of w "''chat completions''" "''chat/completions''" be rq]
    by (simp add: chat_completions_def case_prod_unfold quiet_effect)
next
  case (Completions be rq)
  then show ?thesis
    using route_quiet [of w "''completions''" "''completions''" be rq]
    by (simp add: completions_def case_prod_unfold quiet_effect)
next
  case (RunStream sb c)
  then show ?thesis using stream_generator_quiet [of w sb c]
    by (simp add: case_prod_unfold quiet_effect)
qed

lemma step_fresh:
  assumes "consistent w" and "\<not> reregisters x w" and "heap (snd (step x w)) = heap w @ [m]"
  shows "map_of (models w) (id_field m) = None"
proof (cases x)
  case GetNextPort
  then show ?thesis using assms(3) by (simp add: get_next_port_def)
next
  case (AddModel qenv env bg rq)
  then show ?thesis using add_model_effect [of w qenv env bg rq] assms(3)
    by (simp add: case_prod_unfold)
next
  case (AddModelFromConfig env mc)
  then have "cfg_model_id mc = Some (id_field m)"
    using add_model_from_config_effect [of w env mc] assms(3) by (simp add: case_prod_unfold)
  then show ?thesis using assms(2) AddModelFromConfig by (simp add: reregisters_def)
next
  case (RunTask env i)
  then show ?thesis using run_task_effect [OF assms(1), of env i] assms(3)
    by (simp add: case_prod_unfold)
next
  case (RemoveModel env key)
  then show ?thesis using remove_model_effect [of w env key] assms(3)
    by (simp add: case_prod_unfold)
next
  case (ApiAddModel qenv env rq)
  then show ?thesis using api_add_model_effect [of w qenv env rq] assms(3)
    by (simp add: case_prod_unfold)
next
  case (ApiRemoveModel env key)
  then show ?thesis using api_remove_model_effect [of w env key] assms(3)
    by (simp add: case_prod_unfold)
next
  case (ChatCompletions be rq)
  then show ?thesis
    using route_quiet [of w "''chat completions''" "''chat/completions''" be rq] assms(3)
    by (simp add: chat_completions_def case_prod_unfold quiet_def)
next
  case (Completions be rq)
  then show ?thesis
    using route_quiet [of w "''completions''" "''completions''" be rq] assms(3)
    by (simp add: completions_def case_prod_unfold quiet_def)
next
  case (RunStream sb c)
  then show ?thesis using stream_generator_quiet [of w sb c] assms(3)
    by (simp add: case_prod_unfold quiet_def)
qed

lemma init_consistent: "consistent (init cfg)"
  by (simp add: consistent_def init_def tasks_ok_def models_ok_def heap_ok_def)

lemma run_consistent: "consistent w \<Longrightarrow> consistent (snd (run xs w))"
proof (induction xs arbitrary: w)
  case Nil
  then show ?case by simp
next
  case (Cons x xs)
  have "consistent (snd (step x w))"
    using effect_consistent [OF step_effect [OF Cons.prems] Cons.prems] .
  then have "consistent (snd (run xs (snd (step x w))))" by (rule Cons.IH)
  then show ?case by (simp add: case_prod_unfold)
qed

lemma consistent_known:
  "consistent w \<Longrightarrow> b < length (heap w) \<Longrightarrow> known_status (status (heap w ! b))"
  by (simp add: consistent_def heap_ok_def list_all_length)

lemma run_keeps_starting:
  assumes "consistent w" and "b < length (heap w)" and "status (heap w ! b) = ''starting''"
  shows "status (heap (snd (run ys w)) ! b) = ''starting''"
  using assms
proof (induction ys arbitrary: w)
  case Nil
  then show ?case by simp
next
  case (Cons x xs)
  let ?w1 = "snd (step x w)"
  note e = step_effect [OF Cons.prems(1), of x]
  have c: "consistent ?w1" using effect_consistent [OF e Cons.prems(1)] .
  have l: "b < length (heap ?w1)" using effect_heap_grows [OF e] Cons.prems(2) by simp
  have "obj_edge (status (heap w ! b)) (status (heap ?w1 ! b))"
    using effect_obj_edge [OF e Cons.prems(1,2)] .
  then have s: "status (heap ?w1 ! b) = ''starting''"
    using Cons.prems(3) by (simp add: obj_edge_def)
  have "status (heap (snd (run xs ?w1)) ! b) = ''starting''" using Cons.IH [OF c l s] .
  then show ?case by (simp add: case_prod_unfold)
qed

lemma run_task_204:
  "run_task env_204 0 w_loading
     = (Inr (), w_loading\<lparr>tasks := [],
          heap := [(heap w_loading ! 0)\<lparr>pid := Some 4242, start_time := Some 1,
                                        status := ''starting''\<rparr>]\<rparr>)"
proof -
  have t: "wait_for_server env_204 0 30 = TimedOut"
    by (rule wait_for_server_timeout) (simp add: env_204_fields)
  have n: "now env_204 = 1" by (simp add: env_204_def)
  show ?thesis
    by (simp add: run_task_def w_loading_eq start_model_server_def env_204_fields t n
        upd_obj_def set_status_def)
qed

lemma w_starting_eq:
  "w_starting =
     \<lparr> config = cfg0, models = [(''org/m'', 0)], next_port = 8001,
       heap = [\<lparr> id_field = ''org/m'', name = ''m'', port = 8000,
                 url = ''http://localhost:8000'', gpu_id = 0, status = ''starting'',
                 quantization = \<lparr>q_enabled = False, q_method = ''none'', q_bits = 0\<rparr>,
                 pid = Some 4242, start_time = Some 1 \<rparr>],
       tasks = [], signals = [], outbound = [], error_log = [],
       config_files = {''config/model_configs/m.json''}, drawn = [8000] \<rparr>"
proof -
  have "w_starting = snd (run_task env_204 0 w_loading)"
    by (simp add: w_starting_def w_loading_def case_prod_unfold)
  then show ?thesis by (simp add: run_task_204) (simp add: w_loading_eq)
qed

text \<open>Removing a registered identity succeeds, whatever the status of its record.\<close>

lemma remove_model_registered:
  assumes "consistent w" and "map_of (models w) k = Some a"
  shows "fst (remove_model env k w) = Inr (k, name (heap w ! a), port (heap w ! a))"
    and "map_of (models (snd (remove_model env k w))) k = None"
    and "heap (snd (remove_model env k w)) = heap w"
proof -
  have m: "models_ok (heap w) (models w)" using assms(1) by (simp add: consistent_def)
  have i: "id_field (heap w ! a) = k" using status_of_grow(2) [OF m assms(2)] .
  have g: "get_model w k = Some a" using assms(2) by (simp add: get_model_def)
  show "fst (remove_model env k w) = Inr (k, name (heap w ! a), port (heap w ! a))"
    "map_of (models (snd (remove_model env k w))) k = None"
    "heap (snd (remove_model env k w)) = heap w"
    using g i assms(2)
    by (simp_all add: remove_model_def Let_def delete_conv' split: option.splits)
qed

text \<open>
  Claim C1 lists the edges a status may take and has none from starting or loading to
  stopped. \<open>remove_model\<close> asks for no status: the record below is starting, and the removal
  succeeds and takes it out of the registry.
\<close>

theorem starting_removed_counterexample:
  "status_of w_starting ''org/m'' = Some ''starting''
   \<and> status_of (snd (step (RemoveModel kill_ok ''org/m'') w_starting)) ''org/m'' = None
   \<and> fst (step (RemoveModel kill_ok ''org/m'') w_starting)
       = RemoveOut (Inr (''org/m'', ''m'', 8000))
   \<and> \<not> spec_edge (Some ''starting'') None"
  by (simp add: status_of_def w_starting_eq remove_model_def get_model_def Let_def
      stop_process_kill_ok config_file_of_def replace_slash_def spec_edge_def)

text \<open>
  Claim C1, amended. In every state the server can reach, and for every operation: a
  record object has one of the statuses loading, starting, ready and failed (stopped is
  never written), it stays in the store, and its status is unchanged or goes from loading
  to starting, ready or failed, the work of the one launch of that record; so no record
  goes from ready to loading or from failed to ready. What the registry shows for an
  identity changes in the same way, or the identity is removed, or an identity that was
  not registered appears; this second part leaves out \<open>add_model_from_config\<close> on an
  identity that is registered already. Removing a registered identity succeeds from any
  status, loading and starting included.
\<close>

theorem status_edges:
  assumes "w = snd (run xs (init cfg))"
  shows "(b < length (heap w) \<longrightarrow>
            known_status (status (heap w ! b))
            \<and> b < length (heap (snd (step x w)))
            \<and> obj_edge (status (heap w ! b)) (status (heap (snd (step x w)) ! b)))
    \<and> (\<not> reregisters x w \<longrightarrow> id_edge (status_of w k) (status_of (snd (step x w)) k))
    \<and> (map_of (models w) k = Some a \<longrightarrow>
          fst (step (RemoveModel env k) w)
            = RemoveOut (Inr (k, name (heap w ! a), port (heap w ! a)))
          \<and> status_of (snd (step (RemoveModel env k) w)) k = None)"
proof -
  have c: "consistent w" unfolding assms by (rule run_consistent) (rule init_consistent)
  note e = step_effect [OF c, of x]
  have "id_edge (status_of w k) (status_of (snd (step x w)) k)" if "\<not> reregisters x w"
    using effect_id_edge [OF e c] step_fresh [OF c that] by blast
  moreover have "b < length (heap (snd (step x w)))" if "b < length (heap w)"
    using effect_heap_grows [OF e] that by simp
  moreover have "fst (step (RemoveModel env k) w)
            = RemoveOut (Inr (k, name (heap w ! a), port (heap w ! a)))
          \<and> status_of (snd (step (RemoveModel env k) w)) k = None"
    if "map_of (models w) k = Some a"
    using remove_model_registered [OF c that, of env]
    by (simp add: case_prod_unfold status_of_def)
  ultimately show ?thesis
    using consistent_known [OF c, of b] effect_obj_edge [OF e c, of b] by blast
qed

text \<open>
  An example: the queued launch of a loading record times out and the record is
  starting; removed instead, the loading record is gone.
\<close>

theorem status_edges_witness:
  "w_loading = snd (run [AddModel no_quant env_ready True req_m] (init cfg0))
   \<and> status (heap w_loading ! 0) = ''loading''
   \<and> status (heap (snd (step (RunTask env_204 0) w_loading)) ! 0) = ''starting''
   \<and> obj_edge ''loading'' ''starting''
   \<and> id_edge (status_of w_loading ''org/m'')
        (status_of (snd (step (RunTask env_204 0) w_loading)) ''org/m'')
   \<and> map_of (models w_loading) ''org/m'' = Some 0
   \<and> fst (step (RemoveModel kill_ok ''org/m'') w_loading)
       = RemoveOut (Inr (''org/m'', ''m'', 8000))
   \<and> status_of (snd (step (RemoveModel kill_ok ''org/m'') w_loading)) ''org/m'' = None"
proof -
  have r: "w_loading = snd (run [AddModel no_quant env_ready True req_m] (init cfg0))"
    by (simp add: w_loading_def case_prod_unfold)
  have n: "\<not> reregisters (RunTask env_204 0) w_loading" by (simp add: reregisters_def)
  have s: "status (heap w_loading ! 0) = ''loading''" "(0::nat) < length (heap w_loading)"
    "map_of (models w_loading) ''org/m'' = Some 0"
    "name (heap w_loading ! 0) = ''m''" "port (heap w_loading ! 0) = 8000"
    by (simp_all add: w_loading_eq)
  have t: "status (heap (snd (step (RunTask env_204 0) w_loading)) ! 0) = ''starting''"
    by (simp add: run_task_204)
  show ?thesis
    using status_edges [OF r, where b = 0 and x = "RunTask env_204 0" and k = "''org/m''"
        and a = 0 and env = kill_ok] r n s t
    by simp
qed

lemma env_late_fields:
  "spawn env_late = Inr 4242" "now env_late = 1" "poll env_late k = None"
  "probe env_late k = (if k < 30 then None else Some 200)"
  by (simp_all add: env_late_def)

lemma run_task_late:
  "run_task env_late 0 w_loading
     = (Inr (), w_loading\<lparr>tasks := [],
          heap := [(heap w_loading ! 0)\<lparr>pid := Some 4242, start_time := Some 1,
                                        status := ''starting''\<rparr>]\<rparr>)"
proof -
  have t: "wait_for_server env_late 0 30 = TimedOut"
    by (rule wait_for_server_timeout) (simp add: env_late_fields)
  show ?thesis
    by (simp add: run_task_def w_loading_eq start_model_server_def env_late_fields(1,2) t
        upd_obj_def set_status_def)
qed

lemma w_late_run: "w_late = snd (run_task env_late 0 w_loading)"
  by (simp add: w_late_def w_loading_def case_prod_unfold)

text \<open>
  Claim C2 says that polling goes on in the background after the 30 cycles, so that a
  starting record can still become ready or failed. The backend below would answer the
  probe of cycle 30 with 200; the launch has returned by then, no launch of the record
  is queued, and whatever operations follow, the record stays starting.
\<close>

theorem starting_never_resolves_counterexample:
  "probe env_late 30 = Some 200
   \<and> status (heap w_late ! 0) = ''starting''
   \<and> tasks w_late = []
   \<and> (\<forall>ys. status (heap (snd (run ys w_late)) ! 0) = ''starting'')"
proof -
  have c: "consistent w_late"
    unfolding w_late_def by (rule run_consistent) (rule init_consistent)
  have e: "w_late = w_loading\<lparr>tasks := [],
          heap := [(heap w_loading ! 0)\<lparr>pid := Some 4242, start_time := Some 1,
                                        status := ''starting''\<rparr>]\<rparr>"
    by (simp add: w_late_run run_task_late)
  have s: "status (heap w_late ! 0) = ''starting''" "0 < length (heap w_late)"
    "tasks w_late = []"
    unfolding e by simp_all
  have "status (heap (snd (run ys w_late)) ! 0) = ''starting''" for ys
    using run_keeps_starting [OF c s(2) s(1)] .
  then show ?thesis using s by (simp add: env_late_fields)
qed

text \<open>
  Claim C2, amended. When the 30 cycles pass with the process running and no probe
  answered 200, the status is set to starting and the call returns normally, queueing
  nothing. Polling does not go on: in a state the server can reach, a record that is
  starting is the target of no queued launch and is still starting after any sequence of
  operations; it leaves that status only by being removed from the registry.
\<close>

theorem starting_is_final:
  "(spawn env = Inr p \<and> a < length (heap w)
      \<and> (\<forall>k<30. poll env k = None \<and> probe env k \<noteq> Some 200) \<longrightarrow>
        fst (start_model_server env a w) = Inr ()
        \<and> status (heap (snd (start_model_server env a w)) ! a) = ''starting''
        \<and> tasks (snd (start_model_server env a w)) = tasks w)
   \<and> (w = snd (run xs (init cfg)) \<and> b < length (heap w)
      \<and> status (heap w ! b) = ''starting'' \<longrightarrow>
        status (heap (snd (run ys w)) ! b) = ''starting''
        \<and> b \<notin> task_ref ` set (tasks w))"
proof -
  have one: "fst (start_model_server env a w) = Inr ()
        \<and> status (heap (snd (start_model_server env a w)) ! a) = ''starting''
        \<and> tasks (snd (start_model_server env a w)) = tasks w"
    if "spawn env = Inr p" "a < length (heap w)"
      "\<forall>k<30. poll env k = None \<and> probe env k \<noteq> Some 200"
    using start_model_server_timed_out [OF that(1) wait_for_server_timeout [OF that(3)] that(2)]
    by (simp add: start_model_server_frame)
  have two: "status (heap (snd (run ys w)) ! b) = ''starting''
        \<and> b \<notin> task_ref ` set (tasks w)"
    if "w = snd (run xs (init cfg))" "b < length (heap w)" "status (heap w ! b) = ''starting''"
  proof -
    have c: "consistent w" unfolding that(1) by (rule run_consistent) (rule init_consistent)
    have "b \<notin> task_ref ` set (tasks w)"
      using c that(3) by (auto simp: consistent_def tasks_ok_def list_all_iff)
    then show ?thesis using run_keeps_starting [OF c that(2,3)] by simp
  qed
  show ?thesis using one two by blast
qed

text \<open>
  An example: the launch that times out, and the starting record after a stray task run
  and a chat request.
\<close>

theorem starting_is_final_witness:
  "spawn env_204 = Inr 4242 \<and> 0 < length (heap w_loading)
   \<and> fst (start_model_server env_204 0 w_loading) = Inr ()
   \<and> status (heap (snd (start_model_server env_204 0 w_loading)) ! 0) = ''starting''
   \<and> w_starting
       = snd (run [AddModel no_quant env_ready True req_m, RunTask env_204 0] (init cfg0))
   \<and> status (heap w_starting ! 0) = ''starting''
   \<and> status (heap (snd (run [RunTask env_ready 0, ChatCompletions be_ok rq_chat] w_starting)) ! 0)
       = ''starting''"
proof -
  have q: "\<forall>k<30. poll env_204 k = None \<and> probe env_204 k \<noteq> Some 200"
    by (simp add: env_204_fields)
  have l: "0 < length (heap w_loading)" "0 < length (heap w_starting)"
    "status (heap w_starting ! 0) = ''starting''"
    by (simp_all add: w_loading_eq w_starting_eq)
  show ?thesis
    using starting_is_final [where env = env_204 and p = 4242 and a = 0 and w = w_loading]
      starting_is_final [where w = w_starting and b = 0 and cfg = cfg0
        and xs = "[AddModel no_quant env_ready True req_m, RunTask env_204 0]"
        and ys = "[RunTask env_ready 0, ChatCompletions be_ok rq_chat]"]
      q l env_204_fields(1)
    by (simp add: w_starting_def)
qed

section \<open>Ports never come back\<close>

text \<open>
  A record registered by \<open>add_model\<close> without a port gets the value of \<open>next_port\<close>, and
  the allocator moves past it.
\<close>

lemma register_model_port:
  assumes "req_port rq = None" and "fst (register_model qenv rq w) = Inr (a, d)"
  shows "port (heap (snd (register_model qenv rq w)) ! a) = next_port w"
    and "next_port (snd (register_model qenv rq w)) = next_port w + 1"
  using assms
  by (auto simp: register_model_def Let_def case_prod_unfold new_object_def get_next_port_def
      quantize_model_def split: option.splits if_splits)

lemma add_model_port:
  assumes "req_port rq = None" and "fst (add_model qenv env bg rq w) = Inr a"
  shows "port (heap (snd (add_model qenv env bg rq w)) ! a) = next_port w
    \<and> next_port (snd (add_model qenv env bg rq w)) = next_port w + 1"
proof -
  obtain d where r: "fst (register_model qenv rq w) = Inr (a, d)"
    using assms(2)
    by (auto simp: add_model_def case_prod_unfold split: sum.splits if_splits)
  note p = register_model_port [OF assms(1) r]
  show ?thesis
    using r p
    by (simp add: add_model_def case_prod_unfold start_model_server_frame
        start_model_server_keeps split: sum.splits)
qed

text \<open>
  Every operation appends the ports it draws to the history and moves \<open>next_port\<close> by
  their number, on each of its paths.
\<close>

lemma quantize_model_drawn:
  "drawn (snd (quantize_model qenv m qm qb w)) = drawn w"
  by (simp add: quantize_model_def Let_def)

lemma register_model_drawn:
  "drawn (snd (register_model qenv rq w))
     = drawn w @ (if map_of (models w) (req_model_id rq) = None \<and> req_port rq = None
                  then [next_port w] else [])"
  "next_port (snd (register_model qenv rq w))
     = next_port w + (if map_of (models w) (req_model_id rq) = None \<and> req_port rq = None
                      then 1 else 0)"
  by (auto simp: register_model_def get_next_port_def new_object_def Let_def
      quantize_model_drawn quantize_model_next_port case_prod_unfold
      split: option.splits sum.splits)

lemma add_model_drawn:
  "drawn (snd (add_model qenv env bg rq w)) = drawn (snd (register_model qenv rq w))"
  "next_port (snd (add_model qenv env bg rq w)) = next_port (snd (register_model qenv rq w))"
  by (simp_all add: add_model_def case_prod_unfold start_model_server_frame split: sum.splits)

lemma register_from_config_drawn:
  "drawn (snd (register_from_config mc w))
     = drawn w @ (case cfg_model_id mc of
                    None \<Rightarrow> []
                  | Some k \<Rightarrow> if k = [] then [] else [next_port w, next_port w + 1])"
  "next_port (snd (register_from_config mc w))
     = next_port w + (case cfg_model_id mc of
                        None \<Rightarrow> 0
                      | Some k \<Rightarrow> if k = [] then 0 else 2)"
  by (simp_all add: register_from_config_def get_next_port_def new_object_def Let_def
      split: option.splits)

lemma add_model_from_config_drawn:
  "drawn (snd (add_model_from_config env mc w)) = drawn (snd (register_from_config mc w))"
  "next_port (snd (add_model_from_config env mc w))
     = next_port (snd (register_from_config mc w))"
  by (simp_all add: add_model_from_config_def case_prod_unfold start_model_server_frame
      split: sum.splits)

lemma run_task_drawn: "drawn (snd (run_task env i w)) = drawn w"
  by (simp add: run_task_def start_model_server_frame)

lemma remove_model_drawn: "drawn (snd (remove_model env key w)) = drawn w"
  by (simp add: remove_model_def Let_def split: option.splits)

lemma api_remove_model_drawn: "drawn (snd (api_remove_model env key w)) = drawn w"
  using remove_model_drawn [of env key w]
  by (simp add: api_remove_model_def case_prod_unfold split: sum.splits exn.splits)

lemma api_add_model_drawn:
  "drawn (snd (api_add_model qenv env rq w)) = drawn (snd (add_model qenv env True rq w))"
  "next_port (snd (api_add_model qenv env rq w))
     = next_port (snd (add_model qenv env True rq w))"
  by (simp_all add: api_add_model_def case_prod_unfold split: sum.splits)

lemma proxy_request_drawn: "drawn (snd (proxy_request be rq target endpoint w)) = drawn w"
  by (simp add: proxy_request_def proxy_standard_request_def proxy_streaming_request_def Let_def
      case_prod_unfold split: sum.splits json.splits backend.splits proxy_exn.splits option.splits)

lemma route_drawn: "drawn (snd (route label endpoint be rq w)) = drawn w"
  by (simp add: route_def internal_error_def proxy_request_drawn Let_def case_prod_unfold
      split: sum.splits json.splits option.splits)

lemma stream_generator_drawn: "drawn (snd (stream_generator sb c w)) = drawn w"
  by (simp add: stream_generator_def Let_def split: stream_backend.splits)

lemma step_drawn:
  "drawn (snd (step x w)) = drawn w @ draws x w
   \<and> next_port (snd (step x w)) = next_port w + int (length (draws x w))"
proof (cases x)
  case GetNextPort
  then show ?thesis by (simp add: get_next_port_def draws_def)
next
  case (AddModel qenv env bg rq)
  then show ?thesis
    by (simp add: case_prod_unfold draws_def add_model_drawn register_model_drawn)
next
  case (AddModelFromConfig env mc)
  then show ?thesis
    by (simp add: case_prod_unfold draws_def add_model_from_config_drawn
        register_from_config_drawn split: option.splits)
next
  case (RunTask env i)
  then show ?thesis
    by (simp add: case_prod_unfold draws_def run_task_drawn run_task_next_port)
next
  case (RemoveModel env key)
  then show ?thesis
    by (simp add: case_prod_unfold draws_def remove_model_drawn remove_model_next_port)
next
  case (ApiAddModel qenv env rq)
  then show ?thesis
    by (simp add: case_prod_unfold draws_def api_add_model_drawn add_model_drawn
        register_model_drawn)
next
  case (ApiRemoveModel env key)
  then show ?thesis
    by (simp add: case_prod_unfold draws_def api_remove_model_drawn api_remove_model_next_port)
next
  case (ChatCompletions be rq)
  then show ?thesis
    by (simp add: case_prod_unfold draws_def chat_completions_def route_drawn route_next_port)
next
  case (Completions be rq)
  then show ?thesis
    by (simp add: case_prod_unfold draws_def completions_def route_drawn route_next_port)
next
  case (RunStream sb c)
  then show ?thesis
    by (simp add: case_prod_unfold draws_def stream_generator_drawn stream_generator_next_port)
qed


lemma upt_shift:
  "map (\<lambda>i. b + int i) [0..<m] @ map (\<lambda>i. b + int m + int i) [0..<n]
     = map (\<lambda>i. b + int i) [0..<m + n]"
  by (induction n) (simp_all add: add.assoc)

lemma draws_from: "\<exists>n. draws x w = map (\<lambda>i. next_port w + int i) [0..<n]"
proof (cases "draws x w = []")
  case True
  then have "draws x w = map (\<lambda>i. next_port w + int i) [0..<0]" by simp
  then show ?thesis by blast
next
  case False
  then have "draws x w = [next_port w] \<or> draws x w = [next_port w, next_port w + 1]"
    by (cases x) (auto simp: draws_def split: option.splits if_splits)
  moreover have "[0..<2] = [0, Suc 0]" by (simp add: numeral_2_eq_2)
  ultimately have "draws x w = map (\<lambda>i. next_port w + int i) [0..<1]
      \<or> draws x w = map (\<lambda>i. next_port w + int i) [0..<2]"
    by simp
  then show ?thesis by blast
qed

lemma run_drawn:
  assumes "drawn w = map (\<lambda>i. b + int i) [0..<m]" and "next_port w = b + int m"
  shows "\<exists>n. drawn (snd (run xs w)) = map (\<lambda>i. b + int i) [0..<n]
           \<and> next_port (snd (run xs w)) = b + int n"
  using assms
proof (induction xs arbitrary: w m)
  case Nil
  then show ?case by auto
next
  case (Cons x xs)
  let ?w1 = "snd (step x w)"
  obtain k where k: "draws x w = map (\<lambda>i. next_port w + int i) [0..<k]"
    using draws_from [of x w] by blast
  have "length (map (\<lambda>i. next_port w + int i) [0..<k]) = k" by simp
  then have lk: "length (draws x w) = k" by (simp only: k)
  have d: "drawn ?w1 = drawn w @ draws x w"
    and n: "next_port ?w1 = next_port w + int (length (draws x w))"
    using step_drawn [of x w] by simp_all
  have "drawn ?w1 = map (\<lambda>i. b + int i) [0..<m] @ map (\<lambda>i. b + int m + int i) [0..<k]"
    by (simp only: d Cons.prems k)
  then have c: "drawn ?w1 = map (\<lambda>i. b + int i) [0..<m + k]" by (simp only: upt_shift)
  have l: "next_port ?w1 = b + int (m + k)" using n lk Cons.prems(2) by simp
  show ?case using Cons.IH [OF c l] by (simp add: case_prod_unfold)
qed

lemma init_run_drawn:
  "drawn (snd (run xs (init cfg)))
     = map (\<lambda>i. next_port (init cfg) + int i) [0..<length (drawn (snd (run xs (init cfg))))]
   \<and> next_port (snd (run xs (init cfg)))
     = next_port (init cfg) + int (length (drawn (snd (run xs (init cfg)))))"
proof -
  have a: "drawn (init cfg) = map (\<lambda>i. next_port (init cfg) + int i) [0..<0]"
    by (simp add: init_def)
  have b: "next_port (init cfg) = next_port (init cfg) + int 0" by simp
  obtain n where n: "drawn (snd (run xs (init cfg))) = map (\<lambda>i. next_port (init cfg) + int i) [0..<n]"
    and p: "next_port (snd (run xs (init cfg))) = next_port (init cfg) + int n"
    using run_drawn [OF a b, of xs] by blast
  have "length (map (\<lambda>i. next_port (init cfg) + int i) [0..<n]) = n" by simp
  then have l: "length (drawn (snd (run xs (init cfg)))) = n" by (simp only: n)
  show ?thesis unfolding l using n p by (rule conjI)
qed

lemma counted_sorted: "sorted_wrt (<) (map (\<lambda>i. b + int i) [0..<n])"
  by (simp add: sorted_wrt_map sorted_wrt_upt)

lemma init_run_sorted: "sorted_wrt (<) (drawn (snd (run xs (init cfg))))"
proof -
  have "sorted_wrt (<) (map (\<lambda>i. next_port (init cfg) + int i)
          [0..<length (drawn (snd (run xs (init cfg))))])"
    by (rule counted_sorted)
  then show ?thesis using init_run_drawn [of xs cfg] by argo
qed

lemma add_model_record_port:
  assumes "map_of (models w) (req_model_id rq) = None" and "req_port rq = None"
    and "\<not> (req_quantize rq \<and> \<not> already_quantized qenv \<and> quant_returncode qenv \<noteq> 0)"
  shows "port (heap (snd (add_model qenv env bg rq w)) ! length (heap w)) = next_port w"
proof -
  have r: "port (heap (snd (register_model qenv rq w)) ! length (heap w)) = next_port w"
    using assms
    by (auto simp: register_model_def Let_def new_object_def case_prod_unfold
        quantize_model_def get_next_port_def split: option.splits)
  show ?thesis
    using r
    by (simp add: add_model_def case_prod_unfold start_model_server_keeps split: sum.splits)
qed

lemma add_model_from_config_record:
  assumes "cfg_model_id mc = Some k" and "k \<noteq> []" and "cfg_port mc = None"
  shows "map_of (models (snd (add_model_from_config env mc w))) k = Some (length (heap w))"
    and "port (heap (snd (add_model_from_config env mc w)) ! length (heap w)) = next_port w"
proof -
  let ?w1 = "snd (register_from_config mc w)"
  let ?a = "length (heap w)"
  have r: "fst (register_from_config mc w) = Inr ?a"
    using assms(1,2) by (rule register_from_config_result)
  have w': "snd (add_model_from_config env mc w) = snd (start_model_server env ?a ?w1)"
    using r by (simp add: add_model_from_config_def case_prod_unfold split: sum.splits)
  have mo: "map_of (models ?w1) k = Some ?a"
    using assms(1,2) by (rule register_from_config_result)
  note rec = register_from_config_result(4) [OF assms(1,2), of w]
  have p: "port (heap ?w1 ! ?a) = next_port w" using assms(3) by (simp add: rec)
  show "map_of (models (snd (add_model_from_config env mc w))) k = Some (length (heap w))"
    unfolding w' by (simp add: start_model_server_frame mo)
  show "port (heap (snd (add_model_from_config env mc w)) ! length (heap w)) = next_port w"
    unfolding w' by (simp add: start_model_server_keeps p)
qed

lemma step_port_draws: "fst (step x w) = PortOut p \<Longrightarrow> draws x w = [p]"
  by (cases x) (auto simp: get_next_port_def case_prod_unfold draws_def)

text \<open>The sample run, state by state.\<close>

lemma env_exit_wait: "wait_for_server env_exit 0 30 = Exited 1"
  by (simp add: env_exit_def eval_nat_numeral)

lemma env_exit_fields:
  "spawn env_exit = Inr 4242" "now env_exit = 1" "log_text env_exit = ''CUDA out of memory''"
  by (simp_all add: env_exit_def)

lemma w_p1_eq:
  "w_p1 = (init cfg0)\<lparr>next_port := 8001, drawn := [8000],
                       error_log := [''Quantization failed: no gpu'']\<rparr>"
  by (simp add: w_p1_def add_model_def register_model_def req_q_def quant_fail_def
      quantize_model_def log_error_def init_def cfg0_def get_next_port_def Let_def)

lemma w_p2_models: "models w_p2 = [(''org/m'', 0)]" "next_port w_p2 = 8002"
  "drawn w_p2 = [8000, 8001]" "length (heap w_p2) = 1"
  "port (heap w_p2 ! 0) = 8001" "id_field (heap w_p2 ! 0) = ''org/m''"
  "name (heap w_p2 ! 0) = ''m''" "pid (heap w_p2 ! 0) = Some 4242"
  by (simp_all add: w_p2_def w_p1_eq add_model_def register_model_def req_m_def no_quant_def
      init_def cfg0_def get_next_port_def new_object_def Let_def case_prod_unfold
      start_model_server_frame start_model_server_keeps basename_def
      start_model_server_def env_exit_wait env_exit_fields upd_obj_def set_status_def log_error_def)

lemma w_p2_heap: "\<exists>m. heap w_p2 = [m]"
  using w_p2_models(4) by (cases "heap w_p2") simp_all

lemma w_p3_facts: "models w_p3 = [(''org/m'', 0), (''org/c'', 1)]" "next_port w_p3 = 8004"
  "drawn w_p3 = [8000, 8001, 8002, 8003]" "length (heap w_p3) = 2"
  "port (heap w_p3 ! 0) = 8001" "id_field (heap w_p3 ! 0) = ''org/m''"
  "name (heap w_p3 ! 0) = ''m''" "pid (heap w_p3 ! 0) = Some 4242"
  "port (heap w_p3 ! 1) = 8002"
proof -
  obtain m where h: "heap w_p2 = [m]" using w_p2_heap by blast
  have r: "fst (register_from_config mc1 w_p2) = Inr 1"
    by (simp add: register_from_config_def mc1_def get_next_port_def new_object_def Let_def h)
  have w': "w_p3 = snd (start_model_server env_ready 1 (snd (register_from_config mc1 w_p2)))"
    using r by (simp add: w_p3_def add_model_from_config_def case_prod_unfold split: sum.splits)
  have rm: "models (snd (register_from_config mc1 w_p2)) = [(''org/m'', 0), (''org/c'', 1)]"
    "next_port (snd (register_from_config mc1 w_p2)) = 8004"
    "drawn (snd (register_from_config mc1 w_p2)) = [8000, 8001, 8002, 8003]"
    "heap (snd (register_from_config mc1 w_p2)) ! 0 = heap w_p2 ! 0"
    "length (heap (snd (register_from_config mc1 w_p2))) = 2"
    "port (heap (snd (register_from_config mc1 w_p2)) ! Suc 0) = 8002"
    by (simp_all add: register_from_config_def mc1_def get_next_port_def new_object_def Let_def h
        w_p2_models)
  show "models w_p3 = [(''org/m'', 0), (''org/c'', 1)]" "next_port w_p3 = 8004"
    "drawn w_p3 = [8000, 8001, 8002, 8003]" "length (heap w_p3) = 2"
    unfolding w' by (simp_all add: start_model_server_frame rm)
  show "port (heap w_p3 ! 0) = 8001" "id_field (heap w_p3 ! 0) = ''org/m''"
    "name (heap w_p3 ! 0) = ''m''" "port (heap w_p3 ! 1) = 8002"
    unfolding w' by (simp_all add: start_model_server_keeps rm w_p2_models)
  have "pid (heap (snd (start_model_server env_ready 1 (snd (register_from_config mc1 w_p2)))) ! 0)
      = pid (heap (snd (register_from_config mc1 w_p2)) ! 0)"
    by (simp add: start_model_server_other)
  then show "pid (heap w_p3 ! 0) = Some 4242" unfolding w' by (simp add: rm w_p2_models)
qed

lemma w_p4_facts: "models w_p4 = [(''org/c'', 1)]" "next_port w_p4 = 8004"
  "drawn w_p4 = [8000, 8001, 8002, 8003]" "length (heap w_p4) = 2"
  by (simp_all add: w_p4_def remove_model_def get_model_def w_p3_facts Let_def
      stop_process_kill_ok)

lemma w_p5_facts: "models w_p5 = [(''org/c'', 1), (''org/m'', 2)]" "next_port w_p5 = 8005"
  "drawn w_p5 = [8000, 8001, 8002, 8003, 8004]" "port (heap w_p5 ! 2) = 8004"
  by (simp_all add: w_p5_def add_model_def register_model_def req_m_def no_quant_def
      get_next_port_def new_object_def Let_def save_model_config_def w_p4_facts nth_append)

lemma ops_ports_run:
  "drawn (snd (run ops_ports (init cfg0))) = [8000, 8001, 8002, 8003, 8004, 8005]"
  "reserved (fst (run ops_ports (init cfg0))) = [8005]"
proof -
  have "run ops_ports (init cfg0)
      = ([fst (step (AddModel quant_fail env_ready False req_q) (init cfg0)),
          fst (step (AddModel no_quant env_exit False req_m) w_p1),
          fst (step (AddModelFromConfig env_ready mc1) w_p2),
          fst (step (RemoveModel kill_ok ''org/m'') w_p3),
          fst (step (AddModel no_quant env_ready True req_m) w_p4),
          fst (step GetNextPort w_p5)], snd (step GetNextPort w_p5))"
    unfolding ops_ports_def w_p1_def w_p2_def w_p3_def w_p4_def w_p5_def
    by (simp only: run.simps case_prod_unfold fst_conv snd_conv)
  then show "drawn (snd (run ops_ports (init cfg0))) = [8000, 8001, 8002, 8003, 8004, 8005]"
    "reserved (fst (run ops_ports (init cfg0))) = [8005]"
    by (simp_all add: reserved_def get_next_port_def w_p5_facts case_prod_unfold)
qed

lemma w_p1_add_exit:
  "fst (add_model no_quant env_exit False req_m w_p1)
     = Inl (RuntimeError ''Model server process exited with code 1'')"
  by (simp add: w_p1_eq add_model_def register_model_def req_m_def no_quant_def
      init_def cfg0_def get_next_port_def new_object_def Let_def case_prod_unfold
      start_model_server_def env_exit_wait env_exit_fields str_int_def str_nat.simps
      digit_char_def)

lemma w_p1_add_ready: "fst (add_model no_quant env_ready True req_m w_p1) = Inr 0"
  by (simp add: w_p1_eq add_model_def register_model_def req_m_def no_quant_def
      init_def cfg0_def get_next_port_def new_object_def Let_def)

lemma quant_fail_add:
  "fst (add_model quant_fail env_ready False req_q (init cfg0))
     = Inl (RuntimeError ''Failed to quantize model: no gpu'')"
  by (simp add: add_model_def register_model_def req_q_def quant_fail_def
      quantize_model_def init_def cfg0_def get_next_port_def Let_def)

text \<open>
  Claim C7. The history \<open>drawn\<close> holds every value a call of \<open>get_next_port\<close> has
  returned, also the calls made inside a registration: one in \<open>add_model\<close> for a new
  identity without a port, made before the quantization and the launch and so also when
  one of them fails, and two in \<open>add_model_from_config\<close>. In every run of a fresh manager
  the history is the configured \<^verbatim>\<open>starting_port\<close> (8000 when there is none), the next
  integer, and so on: it is strictly increasing, no value is in it twice, and \<open>next_port\<close>
  is above all of it. No operation gives a port back: each appends its draws to the
  history and moves \<open>next_port\<close> by their number, and a removal draws nothing. A record
  registered without a port holds the value drawn for it, whatever its launch ends in.
  The ports that the direct calls of a run from any state return are strictly increasing
  and not below the value of \<open>next_port\<close> at its start.
\<close>

theorem reserve_never_repeats:
  "drawn (snd (run xs (init cfg)))
     = map (\<lambda>i. (case starting_port cfg of None \<Rightarrow> 8000 | Some p \<Rightarrow> p) + int i)
         [0..<length (drawn (snd (run xs (init cfg))))]
   \<and> sorted_wrt (<) (drawn (snd (run xs (init cfg))))
   \<and> distinct (drawn (snd (run xs (init cfg))))
   \<and> next_port (snd (run xs (init cfg)))
       = (case starting_port cfg of None \<Rightarrow> 8000 | Some p \<Rightarrow> p)
           + int (length (drawn (snd (run xs (init cfg)))))
   \<and> drawn (snd (step x w)) = drawn w @ draws x w
   \<and> next_port (snd (step x w)) = next_port w + int (length (draws x w))
   \<and> (fst (step x w) = PortOut p \<longrightarrow> draws x w = [p])
   \<and> (map_of (models w) (req_model_id rq) = None \<and> req_port rq = None
        \<and> \<not> (req_quantize rq \<and> \<not> already_quantized qenv \<and> quant_returncode qenv \<noteq> 0) \<longrightarrow>
        map_of (models (snd (add_model qenv env bg rq w))) (req_model_id rq)
          = Some (length (heap w))
        \<and> port (heap (snd (add_model qenv env bg rq w)) ! length (heap w)) = next_port w)
   \<and> (cfg_model_id mc = Some k \<and> k \<noteq> [] \<and> cfg_port mc = None \<longrightarrow>
        map_of (models (snd (add_model_from_config env mc w))) k = Some (length (heap w))
        \<and> port (heap (snd (add_model_from_config env mc w)) ! length (heap w)) = next_port w)
   \<and> sorted_wrt (<) (reserved (fst (run xs w)))
   \<and> distinct (reserved (fst (run xs w)))
   \<and> list_all ((\<le>) (next_port w)) (reserved (fst (run xs w)))
   \<and> fst (get_next_port (init cfg)) = (case starting_port cfg of None \<Rightarrow> 8000 | Some p \<Rightarrow> p)
   \<and> next_port w \<le> next_port (snd (step x w))
   \<and> (req_port rq = None \<and> fst (add_model qenv env bg rq w) = Inr a \<longrightarrow>
        port (heap (snd (add_model qenv env bg rq w)) ! a) = next_port w
        \<and> next_port (snd (add_model qenv env bg rq w)) = next_port w + 1)"
proof -
  let ?w' = "snd (run xs (init cfg))"
  have i: "next_port (init cfg) = (case starting_port cfg of None \<Rightarrow> 8000 | Some p \<Rightarrow> p)"
    by (simp add: init_def)
  have c1: "drawn ?w' = map (\<lambda>i. (case starting_port cfg of None \<Rightarrow> 8000 | Some p \<Rightarrow> p) + int i)
         [0..<length (drawn ?w')]"
    and c4: "next_port ?w' = (case starting_port cfg of None \<Rightarrow> 8000 | Some p \<Rightarrow> p)
           + int (length (drawn ?w'))"
    using init_run_drawn [of xs cfg] unfolding i by blast+
  have c2: "sorted_wrt (<) (drawn ?w')" by (rule init_run_sorted)
  then have c3: "distinct (drawn ?w')" by (simp add: strict_sorted_iff)
  have c5: "drawn (snd (step x w)) = drawn w @ draws x w"
    and c6: "next_port (snd (step x w)) = next_port w + int (length (draws x w))"
    using step_drawn [of x w] by blast+
  have c7: "fst (step x w) = PortOut p \<longrightarrow> draws x w = [p]"
    using step_port_draws [of x w p] by blast
  have c8: "map_of (models w) (req_model_id rq) = None \<and> req_port rq = None
        \<and> \<not> (req_quantize rq \<and> \<not> already_quantized qenv \<and> quant_returncode qenv \<noteq> 0) \<longrightarrow>
        map_of (models (snd (add_model qenv env bg rq w))) (req_model_id rq)
          = Some (length (heap w))
        \<and> port (heap (snd (add_model qenv env bg rq w)) ! length (heap w)) = next_port w"
    using add_model_present [of w rq qenv env bg] add_model_record_port [of w rq qenv env bg]
    by blast
  have c9: "cfg_model_id mc = Some k \<and> k \<noteq> [] \<and> cfg_port mc = None \<longrightarrow>
        map_of (models (snd (add_model_from_config env mc w))) k = Some (length (heap w))
        \<and> port (heap (snd (add_model_from_config env mc w)) ! length (heap w)) = next_port w"
    using add_model_from_config_record [of mc k env w] by blast
  have s: "sorted_wrt (<) (reserved (fst (run xs w)))" by (rule run_reserved_sorted)
  then have d: "distinct (reserved (fst (run xs w)))" by (simp add: strict_sorted_iff)
  have b: "list_all ((\<le>) (next_port w)) (reserved (fst (run xs w)))"
    by (rule run_reserved_bound)
  have g: "fst (get_next_port (init cfg)) = (case starting_port cfg of None \<Rightarrow> 8000 | Some p \<Rightarrow> p)"
    by (simp add: get_next_port_def init_def)
  have m: "next_port w \<le> next_port (snd (step x w))" by (rule step_next_port)
  have o: "req_port rq = None \<and> fst (add_model qenv env bg rq w) = Inr a \<longrightarrow>
        port (heap (snd (add_model qenv env bg rq w)) ! a) = next_port w
        \<and> next_port (snd (add_model qenv env bg rq w)) = next_port w + 1"
    using add_model_port [of rq qenv env bg w a] by blast
  show ?thesis
    using c1 c2 c3 c4 c5 c6 c7 c8 c9 s d b g m o by (intro conjI)
qed

text \<open>
  An example: in the sample run the failed quantization takes 8000, the registration whose
  launch fails 8001, the descriptor 8002 and 8003, the registration after the removal
  8004, and the direct call gets 8005.
\<close>

theorem reserve_never_repeats_witness:
  "drawn (snd (run ops_ports (init cfg0))) = [8000, 8001, 8002, 8003, 8004, 8005]
   \<and> reserved (fst (run ops_ports (init cfg0))) = [8005]
   \<and> next_port (snd (run ops_ports (init cfg0))) = 8006
   \<and> fst (add_model quant_fail env_ready False req_q (init cfg0))
       = Inl (RuntimeError ''Failed to quantize model: no gpu'')
   \<and> drawn w_p1 = [8000] \<and> next_port w_p1 = 8001
   \<and> fst (step GetNextPort w_p1) = PortOut 8001
   \<and> map_of (models w_p1) (req_model_id req_m) = None \<and> req_port req_m = None
   \<and> \<not> req_quantize req_m
   \<and> fst (add_model no_quant env_exit False req_m w_p1)
       = Inl (RuntimeError ''Model server process exited with code 1'')
   \<and> map_of (models (snd (add_model no_quant env_exit False req_m w_p1))) ''org/m'' = Some 0
   \<and> port (heap (snd (add_model no_quant env_exit False req_m w_p1)) ! 0) = 8001
   \<and> next_port (snd (add_model no_quant env_exit False req_m w_p1)) = 8002
   \<and> fst (add_model no_quant env_ready True req_m w_p1) = Inr 0
   \<and> port (heap (snd (add_model no_quant env_ready True req_m w_p1)) ! 0) = 8001
   \<and> cfg_model_id mc1 = Some ''org/c'' \<and> ''org/c'' \<noteq> [] \<and> cfg_port mc1 = None
   \<and> port (heap (snd (add_model_from_config env_ready mc1 w_p1)) ! 0) = 8001
   \<and> drawn (snd (add_model_from_config env_ready mc1 w_p1)) = [8000, 8001, 8002]"
proof -
  have f: "map_of (models w_p1) ''org/m'' = None" "req_port req_m = None"
    "\<not> req_quantize req_m" "length (heap w_p1) = 0" "drawn w_p1 = [8000]"
    "next_port w_p1 = 8001" "req_model_id req_m = ''org/m''"
    "cfg_model_id mc1 = Some ''org/c''" "cfg_port mc1 = None"
    "fst (step GetNextPort w_p1) = PortOut 8001"
    by (simp_all add: w_p1_eq init_def req_m_def mc1_def get_next_port_def)
  have d: "draws (AddModel no_quant env_exit False req_m) w_p1 = [8001]"
    "draws (AddModelFromConfig env_ready mc1) w_p1 = [8001, 8002]"
    by (simp_all add: draws_def f)
  note t1 = reserve_never_repeats [where xs = ops_ports and cfg = cfg0
      and x = "AddModel no_quant env_exit False req_m" and w = w_p1 and p = 8001
      and rq = req_m and qenv = no_quant and env = env_exit and bg = False
      and mc = mc1 and k = "''org/c''" and a = 0]
  note t2 = reserve_never_repeats [where xs = ops_ports and cfg = cfg0
      and x = GetNextPort and w = w_p1 and p = 8001
      and rq = req_m and qenv = no_quant and env = env_ready and bg = True
      and mc = mc1 and k = "''org/c''" and a = 0]
  note t3 = reserve_never_repeats [where xs = ops_ports and cfg = cfg0
      and x = "AddModelFromConfig env_ready mc1" and w = w_p1 and p = 8001
      and rq = req_m and qenv = no_quant and env = env_ready and bg = True
      and mc = mc1 and k = "''org/c''" and a = 0]
  show ?thesis
    using t1 t2 t3 f d ops_ports_run w_p1_add_exit w_p1_add_ready quant_fail_add
    by (simp add: cfg0_def case_prod_unfold)
qed

end
